theory Spec2Isabelle
  imports Main
begin

section \<open>The event indexer of the NFT marketplace backend\<close>

text \<open>
  The development follows \<^verbatim>\<open>backend/src/db/database.ts\<close> (class
  \<^verbatim>\<open>DatabaseService\<close>), \<^verbatim>\<open>backend/src/services/indexer.service.ts\<close> (class
  \<^verbatim>\<open>IndexerService\<close>), \<^verbatim>\<open>backend/src/config\<close> and the constructor of
  \<^verbatim>\<open>SuiService\<close>.  Tables are lists of rows in rowid order, JavaScript exceptions are
  values, \<^verbatim>\<open>Date.now()\<close> is an explicit argument, and the ledger's answer to
  \<^verbatim>\<open>getNFTObject\<close> is an explicit argument of the handler that awaits it.  A value
  that is \<^verbatim>\<open>undefined\<close> is \<open>None\<close>; the database driver binds it as \<^verbatim>\<open>NULL\<close>.
\<close>

subsection \<open>JavaScript helpers used by the source\<close>

text \<open>
  \<^verbatim>\<open>s.split('::')\<close>: the separator is searched from the left and matches do not
  overlap; the result always has at least one element, so \<^verbatim>\<open>.pop()\<close> on it is the text
  after the last match.
\<close>

fun split_colons :: "string \<Rightarrow> string \<Rightarrow> string list" where
  "split_colons cur [] = [rev cur]"
| "split_colons cur [c] = [rev (c # cur)]"
| "split_colons cur (c # d # rest) =
     (if c = CHR '':'' \<and> d = CHR '':'' then rev cur # split_colons [] rest
      else split_colons (c # cur) (d # rest))"

definition split_pop :: "string \<Rightarrow> string" where
  "split_pop s = last (split_colons [] s)"

text \<open>
  The numbers the program handles are the values of \<^verbatim>\<open>parseInt\<close> and of
  \<^verbatim>\<open>Date.now()\<close>: \<^verbatim>\<open>NaN\<close>, the two infinities, and doubles that are integers.
\<close>

datatype js_number = NaN | Finite int | PosInfinity | NegInfinity

text \<open>
  The double nearest to an integer: 53 significant bits are kept, a tie goes to the even
  neighbour, and what rounds to \<open>2^1024\<close> or beyond is infinite.
\<close>

function bit_length :: "int \<Rightarrow> nat" where
  "bit_length n = (if n \<le> 0 then 0 else Suc (bit_length (n div 2)))"
  by pat_completeness auto
termination
  by (relation "measure nat") auto

declare bit_length.simps [simp del]

definition round_to_53_bits :: "int \<Rightarrow> int" where
  "round_to_53_bits a =
     (let k = bit_length a - 53; q = a div 2 ^ k; r = a mod 2 ^ k
      in (if 2 ^ k < 2 * r \<or> (2 * r = 2 ^ k \<and> odd q) then q + 1 else q) * 2 ^ k)"

definition to_double :: "int \<Rightarrow> js_number" where
  "to_double v =
     (let m = (if \<bar>v\<bar> < 2 ^ 53 then \<bar>v\<bar> else round_to_53_bits \<bar>v\<bar>)
      in if 2 ^ 1024 \<le> m then (if v < 0 then NegInfinity else PosInfinity)
         else Finite (if v < 0 then - m else m))"

text \<open>
  \<^verbatim>\<open>parseInt(s)\<close> without a radix: leading white space is skipped, a sign is read, a
  \<^verbatim>\<open>0x\<close> or \<^verbatim>\<open>0X\<close> prefix selects radix 16, and the longest prefix of digits is
  converted to a double; no digit at all gives \<^verbatim>\<open>NaN\<close>.  The white space is that of
  ASCII.
\<close>

definition is_ws :: "char \<Rightarrow> bool" where
  "is_ws c = (c \<in> set [CHR '' '', CHR 0x09, CHR 0x0A, CHR 0x0B, CHR 0x0C, CHR 0x0D])"

definition dec_digit :: "char \<Rightarrow> int option" where
  "dec_digit = map_of
     [(CHR ''0'', 0), (CHR ''1'', 1), (CHR ''2'', 2), (CHR ''3'', 3), (CHR ''4'', 4),
      (CHR ''5'', 5), (CHR ''6'', 6), (CHR ''7'', 7), (CHR ''8'', 8), (CHR ''9'', 9)]"

definition hex_digit :: "char \<Rightarrow> int option" where
  "hex_digit c = (case dec_digit c of Some d \<Rightarrow> Some d | None \<Rightarrow> map_of
     [(CHR ''a'', 10), (CHR ''b'', 11), (CHR ''c'', 12), (CHR ''d'', 13), (CHR ''e'', 14),
      (CHR ''f'', 15), (CHR ''A'', 10), (CHR ''B'', 11), (CHR ''C'', 12), (CHR ''D'', 13),
      (CHR ''E'', 14), (CHR ''F'', 15)] c)"

fun read_digits :: "(char \<Rightarrow> int option) \<Rightarrow> int \<Rightarrow> int option \<Rightarrow> string \<Rightarrow> int option" where
  "read_digits dig radix acc [] = acc"
| "read_digits dig radix acc (c # cs) =
     (case dig c of
        None \<Rightarrow> acc
      | Some d \<Rightarrow> read_digits dig radix
          (Some ((case acc of None \<Rightarrow> 0 | Some a \<Rightarrow> a) * radix + d)) cs)"

definition strip_sign :: "string \<Rightarrow> int \<times> string" where
  "strip_sign s =
     (case s of
        [] \<Rightarrow> (1, s)
      | c # r \<Rightarrow> if c = CHR ''-'' then (- 1, r) else if c = CHR ''+'' then (1, r) else (1, s))"

definition has_hex_prefix :: "string \<Rightarrow> bool" where
  "has_hex_prefix s = (take 2 s = ''0x'' \<or> take 2 s = ''0X'')"

definition parseInt :: "string \<Rightarrow> js_number" where
  "parseInt s =
     (let (sign, body) = strip_sign (dropWhile is_ws s)
      in case (if has_hex_prefix body then read_digits hex_digit 16 None (drop 2 body)
               else read_digits dec_digit 10 None body) of
           None \<Rightarrow> NaN
         | Some v \<Rightarrow> to_double (sign * v))"

text \<open>
  A field that is absent (\<^verbatim>\<open>undefined\<close>) is \<open>None\<close>.  \<^verbatim>\<open>parseInt(undefined)\<close>
  converts the argument to the text \<^verbatim>\<open>undefined\<close>, which has no digit.
\<close>

definition parseInt_field :: "string option \<Rightarrow> js_number" where
  "parseInt_field x = (case x of None \<Rightarrow> NaN | Some s \<Rightarrow> parseInt s)"

text \<open>
  \<^verbatim>\<open>x || Date.now()\<close> on a number: \<^verbatim>\<open>NaN\<close> and zero are falsy, and the clock shows
  an integer.
\<close>

definition num_or :: "js_number \<Rightarrow> int \<Rightarrow> js_number" where
  "num_or x now = (if x = NaN \<or> x = Finite 0 then Finite now else x)"

text \<open>
  The order of \<^verbatim>\<open>ORDER BY\<close> on stored numbers; \<^verbatim>\<open>NaN\<close> is stored as \<^verbatim>\<open>NULL\<close>,
  which sorts lowest.
\<close>

fun num_le :: "js_number \<Rightarrow> js_number \<Rightarrow> bool" where
  "num_le NaN y = True"
| "num_le x NaN = False"
| "num_le NegInfinity y = True"
| "num_le x NegInfinity = False"
| "num_le x PosInfinity = True"
| "num_le PosInfinity y = False"
| "num_le (Finite a) (Finite b) = (a \<le> b)"

text \<open>\<^verbatim>\<open>x || null\<close> on an optional text: the empty text is falsy.\<close>

definition or_null :: "string option \<Rightarrow> string option" where
  "or_null x = (case x of None \<Rightarrow> None | Some s \<Rightarrow> if s = [] then None else Some s)"

text \<open>\<^verbatim>\<open>x || y\<close> on optional texts.\<close>

definition str_or :: "string option \<Rightarrow> string option \<Rightarrow> string option" where
  "str_or x y = (case or_null x of Some s \<Rightarrow> Some s | None \<Rightarrow> y)"

subsection \<open>The tables of \<^verbatim>\<open>DatabaseService\<close>\<close>

text \<open>
  One record per table of \<^verbatim>\<open>initTables\<close>, columns in the declared order.  A
  \<^verbatim>\<open>TEXT PRIMARY KEY\<close> column of a rowid table admits \<^verbatim>\<open>NULL\<close>, any number of
  times, so the two keys are optional; the columns declared \<^verbatim>\<open>NOT NULL\<close> are not.  The
  surrogate key of \<^verbatim>\<open>transactions\<close> is chosen by the engine and read nowhere; rows are
  kept in insertion order instead.  The table \<^verbatim>\<open>indexer_state\<close> is written at start-up
  only and left out.
\<close>

record nft_row =
  n_id :: "string option"
  n_name :: string
  n_description :: string
  n_image_url :: string
  n_creator :: string
  n_owner :: string
  n_created_at :: js_number
  n_updated_at :: int

record listing_row =
  l_nft_id :: "string option"
  l_seller :: string
  l_price :: string
  l_status :: string
  l_listed_at :: js_number
  l_updated_at :: int

record tx_row =
  t_tx_digest :: string
  t_event_type :: string
  t_nft_id :: "string option"
  t_from_address :: "string option"
  t_to_address :: "string option"
  t_price :: "string option"
  t_timestamp :: js_number

text \<open>
  \<open>foreign_keys\<close> is the connection's \<^verbatim>\<open>PRAGMA foreign_keys\<close>.  The source never
  sets it, so its value is the default of the engine build; the declaration
  \<^verbatim>\<open>FOREIGN KEY (nft_id) REFERENCES nfts(id)\<close> is enforced exactly when it is on.
\<close>

record db =
  nfts :: "nft_row list"
  listings :: "listing_row list"
  transactions :: "tx_row list"
  foreign_keys :: bool

definition empty_db :: "bool \<Rightarrow> db" where
  "empty_db fk = \<lparr>nfts = [], listings = [], transactions = [], foreign_keys = fk\<rparr>"

datatype error =
  ConstraintError    \<comment> \<open>a \<^verbatim>\<open>NOT NULL\<close> or foreign-key constraint failed\<close>
| TypeError          \<comment> \<open>a method was called on \<^verbatim>\<open>undefined\<close>\<close>
| MissingKeyError    \<comment> \<open>\<^verbatim>\<open>SUI_PRIVATE_KEY not found in environment variables\<close>\<close>
| SdkError           \<comment> \<open>raised inside the ledger SDK\<close>
| DatabaseError      \<comment> \<open>the database file cannot be opened or set up\<close>
| ListenError        \<comment> \<open>the HTTP server cannot listen on its port\<close>

subsection \<open>Operations of \<^verbatim>\<open>DatabaseService\<close>\<close>

record nft_arg =
  a_id :: "string option"
  a_name :: "string option"
  a_description :: string
  a_image_url :: string
  a_creator :: "string option"
  a_owner :: "string option"
  a_created_at :: js_number

text \<open>
  \<^verbatim>\<open>INSERT OR REPLACE INTO nfts\<close>: a \<^verbatim>\<open>NULL\<close> in \<^verbatim>\<open>name\<close>, \<^verbatim>\<open>creator\<close> or
  \<^verbatim>\<open>owner\<close> breaks \<^verbatim>\<open>NOT NULL\<close> and the statement raises.  Otherwise a row with
  the same key is deleted and the new row gets a fresh rowid, so it comes last; a
  \<^verbatim>\<open>NULL\<close> key equals no key, and the row is added.
\<close>

definition saveNFT :: "nft_arg \<Rightarrow> int \<Rightarrow> db \<Rightarrow> error + db" where
  "saveNFT nft now s =
     (case (a_name nft, a_creator nft, a_owner nft) of
        (Some n, Some c, Some ow) \<Rightarrow>
          Inr (s\<lparr>nfts :=
                 (case a_id nft of
                    None \<Rightarrow> nfts s
                  | Some i \<Rightarrow> filter (\<lambda>r. n_id r \<noteq> Some i) (nfts s)) @
                 [\<lparr>n_id = a_id nft, n_name = n, n_description = a_description nft,
                   n_image_url = a_image_url nft, n_creator = c, n_owner = ow,
                   n_created_at = num_or (a_created_at nft) now, n_updated_at = now\<rparr>]\<rparr>)
      | _ \<Rightarrow> Inl ConstraintError)"

definition getNFT :: "string \<Rightarrow> db \<Rightarrow> nft_row option" where
  "getNFT i s = find (\<lambda>r. n_id r = Some i) (nfts s)"

definition getNFTsByOwner :: "string \<Rightarrow> db \<Rightarrow> nft_row list" where
  "getNFTsByOwner ow s = filter (\<lambda>r. n_owner r = ow) (nfts s)"

text \<open>
  \<^verbatim>\<open>UPDATE nfts SET owner = ?, updated_at = ? WHERE id = ?\<close>: a \<^verbatim>\<open>NULL\<close> id
  matches no row, and a statement that matches no row changes nothing and raises nothing.
  A \<^verbatim>\<open>NULL\<close> owner breaks \<^verbatim>\<open>NOT NULL\<close> as soon as a row matches.
\<close>

definition updateNFTOwner :: "string option \<Rightarrow> string option \<Rightarrow> int \<Rightarrow> db \<Rightarrow> error + db" where
  "updateNFTOwner nftId newOwner now s =
     (case nftId of
        None \<Rightarrow> Inr s
      | Some i \<Rightarrow>
          (case newOwner of
             Some ow \<Rightarrow>
               Inr (s\<lparr>nfts := map (\<lambda>r. if n_id r = Some i
                                          then r\<lparr>n_owner := ow, n_updated_at := now\<rparr> else r)
                                  (nfts s)\<rparr>)
           | None \<Rightarrow>
               if Some i \<in> set (map n_id (nfts s)) then Inl ConstraintError else Inr s))"

record listing_arg =
  la_nft_id :: "string option"
  la_seller :: "string option"
  la_price :: string
  la_status :: string
  la_listed_at :: js_number

text \<open>
  \<^verbatim>\<open>INSERT OR REPLACE INTO listings\<close>: a \<^verbatim>\<open>NULL\<close> seller breaks \<^verbatim>\<open>NOT NULL\<close>;
  with foreign keys enforced a key that is not \<^verbatim>\<open>NULL\<close> must be the id of a row of
  \<^verbatim>\<open>nfts\<close>.
\<close>

definition saveListing :: "listing_arg \<Rightarrow> int \<Rightarrow> db \<Rightarrow> error + db" where
  "saveListing listing now s =
     (case la_seller listing of
        None \<Rightarrow> Inl ConstraintError
      | Some sl \<Rightarrow>
          if foreign_keys s \<and> la_nft_id listing \<noteq> None \<and>
             la_nft_id listing \<notin> set (map n_id (nfts s))
          then Inl ConstraintError
          else Inr (s\<lparr>listings :=
                 (case la_nft_id listing of
                    None \<Rightarrow> listings s
                  | Some i \<Rightarrow> filter (\<lambda>r. l_nft_id r \<noteq> Some i) (listings s)) @
                 [\<lparr>l_nft_id = la_nft_id listing, l_seller = sl, l_price = la_price listing,
                   l_status = (if la_status listing = [] then ''active'' else la_status listing),
                   l_listed_at = num_or (la_listed_at listing) now, l_updated_at = now\<rparr>]\<rparr>))"

definition getListing :: "string \<Rightarrow> db \<Rightarrow> listing_row option" where
  "getListing i s = find (\<lambda>r. l_nft_id r = Some i) (listings s)"

text \<open>
  \<^verbatim>\<open>UPDATE listings SET status = ?, updated_at = ? WHERE nft_id = ?\<close>: the status is a
  text at every call, so nothing can raise.
\<close>

definition updateListingStatus :: "string option \<Rightarrow> string \<Rightarrow> int \<Rightarrow> db \<Rightarrow> error + db" where
  "updateListingStatus nftId status now s =
     (case nftId of
        None \<Rightarrow> Inr s
      | Some i \<Rightarrow>
          Inr (s\<lparr>listings := map (\<lambda>r. if l_nft_id r = Some i
                                        then r\<lparr>l_status := status, l_updated_at := now\<rparr> else r)
                                (listings s)\<rparr>))"

record tx_arg =
  x_tx_digest :: string
  x_event_type :: string
  x_nft_id :: "string option"
  x_from_address :: "string option"
  x_to_address :: "string option"
  x_price :: "string option"
  x_timestamp :: js_number

text \<open>
  \<^verbatim>\<open>INSERT OR IGNORE INTO transactions\<close>: the only constraint an insert can break is
  \<^verbatim>\<open>tx_digest TEXT UNIQUE\<close>, and then the statement does nothing.
\<close>

definition saveTransaction :: "tx_arg \<Rightarrow> int \<Rightarrow> db \<Rightarrow> db" where
  "saveTransaction tx now s =
     (if x_tx_digest tx \<in> set (map t_tx_digest (transactions s)) then s
      else s\<lparr>transactions := transactions s @
               [\<lparr>t_tx_digest = x_tx_digest tx, t_event_type = x_event_type tx,
                 t_nft_id = or_null (x_nft_id tx), t_from_address = or_null (x_from_address tx),
                 t_to_address = or_null (x_to_address tx), t_price = or_null (x_price tx),
                 t_timestamp = num_or (x_timestamp tx) now\<rparr>]\<rparr>)"

text \<open>
  \<^verbatim>\<open>getListings\<close>: the inner join of \<^verbatim>\<open>listings\<close> with \<^verbatim>\<open>nfts\<close> on
  \<^verbatim>\<open>l.nft_id = n.id\<close> (which no \<^verbatim>\<open>NULL\<close> satisfies), the columns \<^verbatim>\<open>l.*, n.name,
  n.description, n.image_url, n.creator\<close>, filtered by status when the argument is
  truthy, ordered by \<^verbatim>\<open>listed_at\<close> descending (rows with equal \<^verbatim>\<open>listed_at\<close> keep
  their order).
\<close>

record listing_view = listing_row +
  v_name :: string
  v_description :: string
  v_image_url :: string
  v_creator :: string

definition join_row :: "listing_row \<Rightarrow> nft_row \<Rightarrow> listing_view" where
  "join_row l n = listing_row.extend l
     (listing_view.fields (n_name n) (n_description n) (n_image_url n) (n_creator n))"

definition listings_join_nfts :: "db \<Rightarrow> listing_view list" where
  "listings_join_nfts s =
     concat (map (\<lambda>l. map (join_row l)
                         (filter (\<lambda>n. l_nft_id l \<noteq> None \<and> l_nft_id l = n_id n) (nfts s)))
               (listings s))"

fun insert_desc :: "listing_view \<Rightarrow> listing_view list \<Rightarrow> listing_view list" where
  "insert_desc v [] = [v]"
| "insert_desc v (w # ws) =
     (if num_le (l_listed_at w) (l_listed_at v) then v # w # ws else w # insert_desc v ws)"

definition order_by_listed_at_desc :: "listing_view list \<Rightarrow> listing_view list" where
  "order_by_listed_at_desc vs = foldr insert_desc vs []"

definition getListings :: "string option \<Rightarrow> db \<Rightarrow> listing_view list" where
  "getListings status s =
     order_by_listed_at_desc
       (case or_null status of
          Some st \<Rightarrow> filter (\<lambda>v. l_status v = st) (listings_join_nfts s)
        | None \<Rightarrow> listings_join_nfts s)"

subsection \<open>Events and the ledger's answers\<close>

text \<open>
  The events of the Move module carry \<^verbatim>\<open>nft_id\<close>, \<^verbatim>\<open>creator\<close>, \<^verbatim>\<open>name\<close>,
  \<^verbatim>\<open>seller\<close>, \<^verbatim>\<open>buyer\<close> and \<^verbatim>\<open>price\<close>, all of them texts in the JSON form
  the ledger returns; a field the payload does not have is \<open>None\<close>.
\<close>

record parsed_json =
  nft_id :: "string option"
  creator :: "string option"
  name :: "string option"
  seller :: "string option"
  buyer :: "string option"
  price :: "string option"

record sui_event =
  ev_type :: string                 \<comment> \<open>\<^verbatim>\<open>event.type\<close>\<close>
  txDigest :: string                \<comment> \<open>\<^verbatim>\<open>event.id.txDigest\<close>\<close>
  sender :: string
  timestampMs :: "string option"
  parsedJson :: parsed_json

text \<open>
  What \<^verbatim>\<open>await suiService.getNFTObject(nft_id)\<close> does: it raises, or it returns an
  object whose \<^verbatim>\<open>data?.content\<close> either has a \<^verbatim>\<open>fields\<close> member or is absent or
  has none.
\<close>

record nft_fields =
  f_name :: "string option"
  f_description :: "string option"
  f_url :: "string option"

datatype fetch_result =
  FetchRaises
| Fetched "nft_fields option"

subsection \<open>\<^verbatim>\<open>IndexerService\<close>: the handlers\<close>

text \<open>
  A handler either completes or raises; the tables keep the writes made before the
  exception, since no statement runs inside a transaction.
\<close>

datatype outcome = Done db | Thrown error db

fun outcome_db :: "outcome \<Rightarrow> db" where
  "outcome_db (Done s) = s"
| "outcome_db (Thrown err s) = s"

fun completes :: "outcome \<Rightarrow> bool" where
  "completes (Done s) = True"
| "completes (Thrown err s) = False"

definition outcome_of :: "db \<Rightarrow> error + db \<Rightarrow> outcome" where
  "outcome_of s r = (case r of Inl err \<Rightarrow> Thrown err s | Inr s' \<Rightarrow> Done s')"

definition str_or_empty :: "string option \<Rightarrow> string" where
  "str_or_empty x = (case x of None \<Rightarrow> [] | Some s \<Rightarrow> s)"

definition basic_info :: "sui_event \<Rightarrow> nft_arg" where
  "basic_info event =
     \<lparr>a_id = nft_id (parsedJson event), a_name = name (parsedJson event),
      a_description = [], a_image_url = [],
      a_creator = creator (parsedJson event), a_owner = creator (parsedJson event),
      a_created_at = parseInt_field (timestampMs event)\<rparr>"

definition full_info :: "sui_event \<Rightarrow> nft_fields \<Rightarrow> nft_arg" where
  "full_info event flds =
     \<lparr>a_id = nft_id (parsedJson event),
      a_name = str_or (f_name flds) (name (parsedJson event)),
      a_description = str_or_empty (f_description flds),
      a_image_url = str_or_empty (f_url flds),
      a_creator = creator (parsedJson event), a_owner = creator (parsedJson event),
      a_created_at = parseInt_field (timestampMs event)\<rparr>"

text \<open>
  \<^verbatim>\<open>handleNFTMinted\<close>: the \<^verbatim>\<open>catch\<close> covers the fetch and the first
  \<^verbatim>\<open>saveNFT\<close> alike; an exception of the second \<^verbatim>\<open>saveNFT\<close> leaves the handler.
\<close>

definition handleNFTMinted :: "sui_event \<Rightarrow> fetch_result \<Rightarrow> int \<Rightarrow> db \<Rightarrow> outcome" where
  "handleNFTMinted event fetched now s =
     (case fetched of
        Fetched content \<Rightarrow>
          (case content of
             Some flds \<Rightarrow>
               (case saveNFT (full_info event flds) now s of
                  Inr s' \<Rightarrow> Done s'
                | Inl err \<Rightarrow> outcome_of s (saveNFT (basic_info event) now s))
           | None \<Rightarrow> Done s)
      | FetchRaises \<Rightarrow> outcome_of s (saveNFT (basic_info event) now s))"

definition handleNFTListed :: "sui_event \<Rightarrow> int \<Rightarrow> db \<Rightarrow> outcome" where
  "handleNFTListed event now s =
     (case price (parsedJson event) of
        None \<Rightarrow> Thrown TypeError s
      | Some p \<Rightarrow>
          outcome_of s (saveListing
            \<lparr>la_nft_id = nft_id (parsedJson event), la_seller = seller (parsedJson event),
             la_price = p, la_status = ''active'',
             la_listed_at = parseInt_field (timestampMs event)\<rparr> now s))"

definition handleNFTPurchased :: "sui_event \<Rightarrow> int \<Rightarrow> db \<Rightarrow> outcome" where
  "handleNFTPurchased event now s =
     (case updateListingStatus (nft_id (parsedJson event)) ''sold'' now s of
        Inl err \<Rightarrow> Thrown err s
      | Inr s1 \<Rightarrow> outcome_of s1 (updateNFTOwner (nft_id (parsedJson event))
                                   (buyer (parsedJson event)) now s1))"

definition handleNFTDelisted :: "sui_event \<Rightarrow> int \<Rightarrow> db \<Rightarrow> outcome" where
  "handleNFTDelisted event now s =
     outcome_of s (updateListingStatus (nft_id (parsedJson event)) ''delisted'' now s)"

subsection \<open>\<^verbatim>\<open>IndexerService\<close>: \<^verbatim>\<open>processEvent\<close> and \<^verbatim>\<open>indexEvents\<close>\<close>

definition eventType :: "sui_event \<Rightarrow> string" where
  "eventType event = split_pop (ev_type event)"

text \<open>The \<^verbatim>\<open>switch\<close> of \<^verbatim>\<open>processEvent\<close>; the default branch only logs.\<close>

definition dispatch :: "sui_event \<Rightarrow> fetch_result \<Rightarrow> int \<Rightarrow> db \<Rightarrow> outcome" where
  "dispatch event fetched now s =
     (if eventType event = ''NFTMinted'' then handleNFTMinted event fetched now s
      else if eventType event = ''NFTListed'' then handleNFTListed event now s
      else if eventType event = ''NFTPurchased'' then handleNFTPurchased event now s
      else if eventType event = ''NFTDelisted'' then handleNFTDelisted event now s
      else Done s)"

definition tx_of_event :: "sui_event \<Rightarrow> tx_arg" where
  "tx_of_event event =
     \<lparr>x_tx_digest = txDigest event, x_event_type = eventType event,
      x_nft_id = or_null (nft_id (parsedJson event)),
      x_from_address = Some (sender event),
      x_to_address = or_null (str_or (buyer (parsedJson event)) (seller (parsedJson event))),
      x_price = or_null (price (parsedJson event)),
      x_timestamp = parseInt_field (timestampMs event)\<rparr>"

text \<open>
  \<^verbatim>\<open>processEvent\<close>: the statement after the \<^verbatim>\<open>switch\<close> saves the transaction
  whatever branch ran; the \<^verbatim>\<open>catch\<close> logs an exception of the handler and skips it.
\<close>

definition processEvent :: "sui_event \<Rightarrow> fetch_result \<Rightarrow> int \<Rightarrow> db \<Rightarrow> db" where
  "processEvent event fetched now s =
     (case dispatch event fetched now s of
        Thrown err s' \<Rightarrow> s'
      | Done s' \<Rightarrow> saveTransaction (tx_of_event event) now s')"

text \<open>
  A delivery is one event of a batch together with what the ledger answers to the
  detail fetch and what the clock shows while the event is processed.
\<close>

type_synonym delivery = "sui_event \<times> fetch_result \<times> int"

definition process_delivery :: "delivery \<Rightarrow> db \<Rightarrow> db" where
  "process_delivery d s = (case d of (event, fetched, now) \<Rightarrow> processEvent event fetched now s)"

text \<open>The \<^verbatim>\<open>for\<close> loop of \<^verbatim>\<open>indexEvents\<close> over the events of one batch.\<close>

fun process_all :: "delivery list \<Rightarrow> db \<Rightarrow> db" where
  "process_all [] s = s"
| "process_all (d # ds) s = process_all ds (process_delivery d s)"

subsection \<open>\<^verbatim>\<open>IndexerService\<close>: the poll loop\<close>

record indexer =
  isRunning :: bool
  pollInterval :: js_number
  packageId :: "string option"

text \<open>\<^verbatim>\<open>process.env\<close> after \<^verbatim>\<open>dotenv.config()\<close>.\<close>

type_synonym env = "string \<Rightarrow> string option"

text \<open>\<^verbatim>\<open>process.env.K || d\<close>\<close>

definition env_or :: "env \<Rightarrow> string \<Rightarrow> string \<Rightarrow> string" where
  "env_or e k d = (case or_null (e k) of None \<Rightarrow> d | Some v \<Rightarrow> v)"

definition IndexerService_constructor :: "env \<Rightarrow> indexer" where
  "IndexerService_constructor e =
     \<lparr>isRunning = False,
      pollInterval = parseInt (env_or e ''INDEXER_POLL_INTERVAL'' ''5000''),
      packageId = e ''PACKAGE_ID''\<rparr>"

text \<open>
  \<^verbatim>\<open>start\<close> returns the indexer and whether it launched \<^verbatim>\<open>poll\<close>; \<^verbatim>\<open>stop\<close> only
  clears the flag.
\<close>

definition start :: "indexer \<Rightarrow> indexer \<times> bool" where
  "start ix = (if isRunning ix then (ix, False) else (ix\<lparr>isRunning := True\<rparr>, True))"






subsection \<open>Start-up: the configuration module and \<^verbatim>\<open>SuiService\<close>\<close>

record config =
  PACKAGE_ID :: string
  MARKETPLACE_ID :: string
  SUI_NETWORK :: string
  SUI_PRIVATE_KEY :: string

definition load_config :: "env \<Rightarrow> config" where
  "load_config e =
     \<lparr>PACKAGE_ID = env_or e ''PACKAGE_ID'' [],
      MARKETPLACE_ID = env_or e ''MARKETPLACE_ID'' [],
      SUI_NETWORK = env_or e ''SUI_NETWORK'' ''testnet'',
      SUI_PRIVATE_KEY = env_or e ''SUI_PRIVATE_KEY'' []\<rparr>"

text \<open>
  What the process meets outside itself while it starts is a parameter: the functions of
  the ledger SDK that the constructor of \<^verbatim>\<open>SuiService\<close> calls (\<open>None\<close> is an
  exception raised inside the SDK), whether \<^verbatim>\<open>new Database(path)\<close> and the set-up of
  its tables succeed, and whether \<^verbatim>\<open>app.listen(port, callback)\<close> gets the port and
  calls the callback.
\<close>

record 'k host =
  getFullnodeUrl :: "string \<Rightarrow> string option"
  fromBase64 :: "string \<Rightarrow> nat list option"
  fromSecretKey :: "nat list \<Rightarrow> 'k option"
  open_database :: "string \<Rightarrow> bool"
  listen :: "string \<Rightarrow> bool"

record 'k sui_service =
  client_url :: string
  keypair :: 'k
  sui_packageId :: string
  sui_marketplaceId :: string

text \<open>
  The text handed to \<^verbatim>\<open>fromBase64\<close>: the key without its \<^verbatim>\<open>suiprivkey\<close> prefix.
\<close>

definition privateKeyBase64 :: "string \<Rightarrow> string" where
  "privateKeyBase64 k = (if take 10 k = ''suiprivkey'' then drop 10 k else k)"

definition SuiService_constructor :: "'k host \<Rightarrow> config \<Rightarrow> error + 'k sui_service" where
  "SuiService_constructor h cfg =
     (let network = (if SUI_NETWORK cfg = [] then ''testnet'' else SUI_NETWORK cfg)
      in case getFullnodeUrl h network of
           None \<Rightarrow> Inl SdkError
         | Some url \<Rightarrow>
             if SUI_PRIVATE_KEY cfg = [] then Inl MissingKeyError
             else
               (case fromBase64 h (privateKeyBase64 (SUI_PRIVATE_KEY cfg)) of
                  None \<Rightarrow> Inl SdkError
                | Some privateKeyBytes \<Rightarrow>
                    (case fromSecretKey h (take 32 (drop 1 privateKeyBytes)) of
                       None \<Rightarrow> Inl SdkError
                     | Some kp \<Rightarrow>
                         Inr \<lparr>client_url = url, keypair = kp,
                              sui_packageId = PACKAGE_ID cfg,
                              sui_marketplaceId = MARKETPLACE_ID cfg\<rparr>)))"

text \<open>\<^verbatim>\<open>process.env.DB_PATH || './marketplace.db'\<close>\<close>

definition DB_PATH :: "env \<Rightarrow> string" where
  "DB_PATH e = env_or e ''DB_PATH'' ''./marketplace.db''"

text \<open>The constructor of \<^verbatim>\<open>DatabaseService\<close>: it opens the file and creates the tables.\<close>

definition DatabaseService_constructor :: "'k host \<Rightarrow> env \<Rightarrow> error + unit" where
  "DatabaseService_constructor h e =
     (if open_database h (DB_PATH e) then Inr () else Inl DatabaseError)"

text \<open>\<^verbatim>\<open>process.env.PORT || 3000\<close>, as the text that names the port.\<close>

definition PORT :: "env \<Rightarrow> string" where
  "PORT e = env_or e ''PORT'' ''3000''"

text \<open>
  Loading \<^verbatim>\<open>index.ts\<close>: the imports construct \<^verbatim>\<open>SuiService\<close>, then
  \<^verbatim>\<open>DatabaseService\<close>, then \<^verbatim>\<open>IndexerService\<close>, and an exception of a constructor
  ends the process.  The body then calls \<^verbatim>\<open>app.listen\<close>, whose callback is the only
  caller of \<^verbatim>\<open>indexer.start()\<close>: a server that cannot listen never starts the loop.
\<close>

definition startup :: "'k host \<Rightarrow> env \<Rightarrow> error + ('k sui_service \<times> indexer \<times> bool)" where
  "startup h e =
     (case SuiService_constructor h (load_config e) of
        Inl err \<Rightarrow> Inl err
      | Inr sui \<Rightarrow>
          (case DatabaseService_constructor h e of
             Inl err \<Rightarrow> Inl err
           | Inr u \<Rightarrow>
               if listen h (PORT e) then Inr (sui, start (IndexerService_constructor e))
               else Inl ListenError))"

subsection \<open>Notions used to state the properties\<close>

text \<open>The four kinds the \<^verbatim>\<open>switch\<close> of \<^verbatim>\<open>processEvent\<close> names.\<close>

definition known_kinds :: "string list" where
  "known_kinds = [''NFTMinted'', ''NFTListed'', ''NFTPurchased'', ''NFTDelisted'']"

text \<open>An event carries the payload fields the specification requires of its kind.\<close>

definition wf_event :: "sui_event \<Rightarrow> bool" where
  "wf_event event =
     (if eventType event = ''NFTMinted'' then
        nft_id (parsedJson event) \<noteq> None \<and> creator (parsedJson event) \<noteq> None \<and>
        name (parsedJson event) \<noteq> None
      else if eventType event = ''NFTListed'' then
        nft_id (parsedJson event) \<noteq> None \<and> seller (parsedJson event) \<noteq> None \<and>
        price (parsedJson event) \<noteq> None
      else if eventType event = ''NFTPurchased'' then
        nft_id (parsedJson event) \<noteq> None \<and> buyer (parsedJson event) \<noteq> None \<and>
        seller (parsedJson event) \<noteq> None \<and> price (parsedJson event) \<noteq> None
      else if eventType event = ''NFTDelisted'' then
        nft_id (parsedJson event) \<noteq> None \<and> seller (parsedJson event) \<noteq> None
      else True)"

text \<open>
  With foreign keys enforced, a Listed event is stored only when the entity it names
  has a row.
\<close>

definition parent_present :: "sui_event \<Rightarrow> db \<Rightarrow> bool" where
  "parent_present event s =
     (if eventType event = ''NFTListed'' \<and> foreign_keys s
      then nft_id (parsedJson event) \<in> set (map n_id (nfts s)) else True)"


definition tx_count :: "string \<Rightarrow> db \<Rightarrow> nat" where
  "tx_count digest s = length (filter (\<lambda>r. t_tx_digest r = digest) (transactions s))"

definition tx_unique :: "db \<Rightarrow> bool" where
  "tx_unique s = distinct (map t_tx_digest (transactions s))"

definition owner_of :: "string \<Rightarrow> db \<Rightarrow> string option" where
  "owner_of i s = map_option n_owner (getNFT i s)"

definition status_of :: "string \<Rightarrow> db \<Rightarrow> string option" where
  "status_of i s = map_option l_status (getListing i s)"

text \<open>
  The keys of \<^verbatim>\<open>nfts\<close> that are not \<^verbatim>\<open>NULL\<close>, and what every store reached by the
  handlers satisfies: no such key occurs twice, and a row without a key is owned by its
  creator.
\<close>

definition keyed_ids :: "nft_row list \<Rightarrow> string option list" where
  "keyed_ids rows = filter (\<lambda>i. i \<noteq> None) (map n_id rows)"

definition keyless_ok :: "nft_row \<Rightarrow> bool" where
  "keyless_ok r = (case n_id r of None \<Rightarrow> n_owner r = n_creator r | Some i \<Rightarrow> True)"

definition nfts_ok :: "nft_row list \<Rightarrow> bool" where
  "nfts_ok rows = (distinct (keyed_ids rows) \<and> list_all keyless_ok rows)"

text \<open>
  The owner as the specification words it: the buyer of the most recent Purchased event
  for the entity, or the creator if there is none.
\<close>

definition purchases_of :: "string \<Rightarrow> delivery list \<Rightarrow> sui_event list" where
  "purchases_of i ds =
     filter (\<lambda>event. eventType event = ''NFTPurchased'' \<and> nft_id (parsedJson event) = Some i)
       (map fst ds)"

definition claimed_owner :: "delivery list \<Rightarrow> nft_row \<Rightarrow> string option" where
  "claimed_owner ds r =
     (case n_id r of
        None \<Rightarrow> Some (n_creator r)
      | Some i \<Rightarrow>
          (case purchases_of i ds of
             [] \<Rightarrow> Some (n_creator r)
           | p # ps \<Rightarrow> buyer (parsedJson (last (p # ps)))))"

text \<open>
  A Minted delivery writes the row of entity \<open>i\<close>: it names \<open>i\<close> and a creator, and
  the handler has a name to store, from the fetched fields or from the event.  (A Minted
  event without an id writes a row without a key, which is the row of no entity.)
\<close>

definition mint_writes :: "string \<Rightarrow> delivery \<Rightarrow> bool" where
  "mint_writes i d =
     (case d of (event, fetched, now) \<Rightarrow>
        eventType event = ''NFTMinted'' \<and> nft_id (parsedJson event) = Some i \<and>
        creator (parsedJson event) \<noteq> None \<and>
        (case fetched of
           FetchRaises \<Rightarrow> name (parsedJson event) \<noteq> None
         | Fetched None \<Rightarrow> False
         | Fetched (Some flds) \<Rightarrow> str_or (f_name flds) (name (parsedJson event)) \<noteq> None))"

definition purchase_names :: "string \<Rightarrow> delivery \<Rightarrow> bool" where
  "purchase_names i d =
     (case d of (event, fetched, now) \<Rightarrow>
        eventType event = ''NFTPurchased'' \<and> nft_id (parsedJson event) = Some i \<and>
        buyer (parsedJson event) \<noteq> None)"

text \<open>
  The owner since the last mint, read from the deliveries with the most recent one
  first: a Minted delivery that writes the row decides for its creator, a Purchased
  delivery decides for its buyer when a row exists, any other delivery is skipped.
\<close>

fun owner_since_mint :: "string \<Rightarrow> delivery list \<Rightarrow> string option" where
  "owner_since_mint i [] = None"
| "owner_since_mint i (d # older) =
     (if mint_writes i d then creator (parsedJson (fst d))
      else if purchase_names i d \<and> owner_since_mint i older \<noteq> None
        then buyer (parsedJson (fst d))
      else owner_since_mint i older)"

subsection \<open>Sample events\<close>

definition sample_payload :: parsed_json where
  "sample_payload =
     \<lparr>nft_id = Some ''0xX'', creator = None, name = None, seller = None, buyer = None,
      price = None\<rparr>"

definition sample_minted :: sui_event where
  "sample_minted =
     \<lparr>ev_type = ''0x1::marketplace::NFTMinted'', txDigest = ''digest1'', sender = ''0xA'',
      timestampMs = Some ''1000'',
      parsedJson = sample_payload\<lparr>creator := Some ''0xA'', name := Some ''Art''\<rparr>\<rparr>"

definition sample_listed :: sui_event where
  "sample_listed =
     \<lparr>ev_type = ''0x1::marketplace::NFTListed'', txDigest = ''digest2'', sender = ''0xA'',
      timestampMs = Some ''2000'',
      parsedJson = sample_payload\<lparr>seller := Some ''0xA'', price := Some ''100''\<rparr>\<rparr>"

definition sample_purchased :: sui_event where
  "sample_purchased =
     \<lparr>ev_type = ''0x1::marketplace::NFTPurchased'', txDigest = ''digest3'', sender = ''0xB'',
      timestampMs = Some ''3000'',
      parsedJson = sample_payload
        \<lparr>buyer := Some ''0xB'', seller := Some ''0xA'', price := Some ''100''\<rparr>\<rparr>"

definition sample_unknown :: sui_event where
  "sample_unknown =
     \<lparr>ev_type = ''0x1::marketplace::NFTBurned'', txDigest = ''digest4'', sender = ''0xA'',
      timestampMs = Some ''4000'', parsedJson = sample_payload\<rparr>"

definition sample_fields :: nft_fields where
  "sample_fields =
     \<lparr>f_name = Some ''Art'', f_description = Some ''A picture'', f_url = Some ''ipfs://art''\<rparr>"

text \<open>
  A host whose SDK knows the test network, decodes the sample key (44 letters for 33 zero
  bytes) and accepts a secret key of 32 bytes, whose database opens at the default path
  and whose server listens on the default port.
\<close>

definition sample_host :: "(nat list) host" where
  "sample_host =
     \<lparr>getFullnodeUrl = (\<lambda>n. if n = ''testnet'' then Some ''https://fullnode.testnet.sui.io:443''
                             else None),
      fromBase64 =
        (\<lambda>t. if t = ''AAAAAAAAAAAAAAAAAAAAAAAAAAAAAAAAAAAAAAAAAAAA'' then Some (replicate 33 0)
             else None),
      fromSecretKey = (\<lambda>bs. if length bs = 32 then Some bs else None),
      open_database = (\<lambda>p. p = ''./marketplace.db''),
      listen = (\<lambda>p. p = ''3000'')\<rparr>"

text \<open>The store after a Listed event arrived before any Minted event, foreign keys off.\<close>

definition listed_before_mint :: db where
  "listed_before_mint = process_all [(sample_listed, FetchRaises, 20)] (empty_db False)"

definition sample_listing_row :: listing_row where
  "sample_listing_row =
     \<lparr>l_nft_id = Some ''0xX'', l_seller = ''0xA'', l_price = ''100'', l_status = ''active'',
      l_listed_at = Finite 2000, l_updated_at = 20\<rparr>"

text \<open>A Minted event delivered again after the purchase of its entity.\<close>

definition redelivered :: "delivery list" where
  "redelivered =
     [(sample_minted, FetchRaises, 10), (sample_purchased, FetchRaises, 20),
      (sample_minted, FetchRaises, 30)]"

definition minted_again_row :: nft_row where
  "minted_again_row =
     \<lparr>n_id = Some ''0xX'', n_name = ''Art'', n_description = [], n_image_url = [],
      n_creator = ''0xA'', n_owner = ''0xA'', n_created_at = Finite 1000, n_updated_at = 30\<rparr>"

text \<open>A store with the sample entity listed, and the sample purchase applied to it twice.\<close>

definition listed_store :: db where
  "listed_store =
     process_all [(sample_minted, FetchRaises, 10), (sample_listed, FetchRaises, 20)]
       (empty_db True)"

definition sold_once :: db where
  "sold_once = processEvent sample_purchased FetchRaises 30 listed_store"

definition sold_twice :: db where
  "sold_twice = processEvent sample_purchased FetchRaises 5030 sold_once"


definition sample_env :: env where
  "sample_env =
     (\<lambda>k. if k = ''SUI_PRIVATE_KEY''
          then Some ''suiprivkeyAAAAAAAAAAAAAAAAAAAAAAAAAAAAAAAAAAAAAAAAAAAA'' else None)"


text \<open>
  The three sample events in both orders, when the detail fetch of the Minted event
  returns an object without content.
\<close>

definition unfetched_in_order :: "delivery list" where
  "unfetched_in_order =
     [(sample_minted, Fetched None, 10), (sample_listed, FetchRaises, 20),
      (sample_purchased, FetchRaises, 30)]"

definition unfetched_out_of_order :: "delivery list" where
  "unfetched_out_of_order =
     [(sample_minted, Fetched None, 10), (sample_purchased, FetchRaises, 20),
      (sample_listed, FetchRaises, 30)]"


section \<open>Properties\<close>

subsection \<open>Evaluation of the sample events\<close>

lemmas run_defs = process_delivery_def processEvent_def dispatch_def handleNFTMinted_def
  handleNFTListed_def handleNFTPurchased_def handleNFTDelisted_def saveNFT_def saveListing_def
  updateListingStatus_def updateNFTOwner_def saveTransaction_def tx_of_event_def outcome_of_def
  basic_info_def full_info_def parseInt_field_def num_or_def or_null_def str_or_def
  str_or_empty_def empty_db_def

lemma parse_samples [simp]:
  "parseInt ''1000'' = Finite 1000" "parseInt ''2000'' = Finite 2000"
  "parseInt ''3000'' = Finite 3000" "parseInt ''4000'' = Finite 4000"
  "parseInt ''5000'' = Finite 5000" "parseInt ''250'' = Finite 250"
  by (simp_all add: parseInt_def strip_sign_def is_ws_def has_hex_prefix_def dec_digit_def
      to_double_def)

lemma sample_kinds [simp]:
  "eventType sample_minted = ''NFTMinted''"
  "eventType sample_listed = ''NFTListed''"
  "eventType sample_purchased = ''NFTPurchased''"
  "eventType sample_unknown = ''NFTBurned''"
  by (simp_all add: eventType_def split_pop_def sample_minted_def sample_listed_def
      sample_purchased_def sample_unknown_def)

lemma sample_digests [simp]:
  "txDigest sample_minted = ''digest1''"
  "txDigest sample_listed = ''digest2''"
  "txDigest sample_purchased = ''digest3''"
  "txDigest sample_unknown = ''digest4''"
  by (simp_all add: sample_minted_def sample_listed_def sample_purchased_def sample_unknown_def)

lemma sample_payloads [simp]:
  "parsedJson sample_minted = sample_payload\<lparr>creator := Some ''0xA'', name := Some ''Art''\<rparr>"
  "parsedJson sample_listed = sample_payload\<lparr>seller := Some ''0xA'', price := Some ''100''\<rparr>"
  "parsedJson sample_purchased =
     sample_payload\<lparr>buyer := Some ''0xB'', seller := Some ''0xA'', price := Some ''100''\<rparr>"
  "parsedJson sample_unknown = sample_payload"
  by (simp_all add: sample_minted_def sample_listed_def sample_purchased_def sample_unknown_def)

lemma sample_payload_fields [simp]:
  "nft_id sample_payload = Some ''0xX''" "creator sample_payload = None"
  "name sample_payload = None" "seller sample_payload = None"
  "buyer sample_payload = None" "price sample_payload = None"
  by (simp_all add: sample_payload_def)

lemma sample_times [simp]:
  "timestampMs sample_minted = Some ''1000''" "timestampMs sample_listed = Some ''2000''"
  "timestampMs sample_purchased = Some ''3000''" "timestampMs sample_unknown = Some ''4000''"
  by (simp_all add: sample_minted_def sample_listed_def sample_purchased_def sample_unknown_def)

lemma sample_senders [simp]:
  "sender sample_minted = ''0xA''" "sender sample_listed = ''0xA''"
  "sender sample_purchased = ''0xB''" "sender sample_unknown = ''0xA''"
  by (simp_all add: sample_minted_def sample_listed_def sample_purchased_def sample_unknown_def)

subsection \<open>What the handlers and the store operations leave alone\<close>

lemma saveTransaction_tables [simp]:
  "nfts (saveTransaction tx now s) = nfts s"
  "listings (saveTransaction tx now s) = listings s"
  "foreign_keys (saveTransaction tx now s) = foreign_keys s"
  by (simp_all add: saveTransaction_def)

lemma dispatch_kind:
  "eventType e = ''NFTMinted'' \<Longrightarrow> dispatch e f now s = handleNFTMinted e f now s"
  "eventType e = ''NFTListed'' \<Longrightarrow> dispatch e f now s = handleNFTListed e now s"
  "eventType e = ''NFTPurchased'' \<Longrightarrow> dispatch e f now s = handleNFTPurchased e now s"
  "eventType e = ''NFTDelisted'' \<Longrightarrow> dispatch e f now s = handleNFTDelisted e now s"
  "eventType e \<notin> set known_kinds \<Longrightarrow> dispatch e f now s = Done s"
  by (simp_all add: dispatch_def known_kinds_def)

lemma processEvent_split:
  "processEvent e f now s =
     (if completes (dispatch e f now s)
      then saveTransaction (tx_of_event e) now (outcome_db (dispatch e f now s))
      else outcome_db (dispatch e f now s))"
  by (cases "dispatch e f now s") (simp_all add: processEvent_def)

lemma outcome_of_db: "outcome_db (outcome_of s r) = (case r of Inl err \<Rightarrow> s | Inr s' \<Rightarrow> s')"
  by (simp add: outcome_of_def split: sum.splits)

lemma handlers_keep_transactions:
  "transactions (outcome_db (handleNFTMinted e f now s)) = transactions s"
  "transactions (outcome_db (handleNFTListed e now s)) = transactions s"
  "transactions (outcome_db (handleNFTPurchased e now s)) = transactions s"
  "transactions (outcome_db (handleNFTDelisted e now s)) = transactions s"
  by (auto simp: handleNFTMinted_def handleNFTListed_def handleNFTPurchased_def
      handleNFTDelisted_def outcome_of_def saveNFT_def saveListing_def updateListingStatus_def
      updateNFTOwner_def split: fetch_result.splits option.splits sum.splits if_splits)

lemma dispatch_keeps_transactions:
  "transactions (outcome_db (dispatch e f now s)) = transactions s"
  by (simp add: dispatch_def handlers_keep_transactions)

lemma handlers_keep_foreign_keys:
  "foreign_keys (outcome_db (handleNFTMinted e f now s)) = foreign_keys s"
  "foreign_keys (outcome_db (handleNFTListed e now s)) = foreign_keys s"
  "foreign_keys (outcome_db (handleNFTPurchased e now s)) = foreign_keys s"
  "foreign_keys (outcome_db (handleNFTDelisted e now s)) = foreign_keys s"
  by (auto simp: handleNFTMinted_def handleNFTListed_def handleNFTPurchased_def
      handleNFTDelisted_def outcome_of_def saveNFT_def saveListing_def updateListingStatus_def
      updateNFTOwner_def split: fetch_result.splits option.splits sum.splits if_splits)

lemma nfts_processEvent: "nfts (processEvent e f now s) = nfts (outcome_db (dispatch e f now s))"
  by (simp add: processEvent_split)

lemma listings_processEvent:
  "listings (processEvent e f now s) = listings (outcome_db (dispatch e f now s))"
  by (simp add: processEvent_split)

lemma foreign_keys_processEvent: "foreign_keys (processEvent e f now s) = foreign_keys s"
  by (simp add: processEvent_split dispatch_def handlers_keep_foreign_keys)

subsection \<open>Events of an unrecognized kind\<close>

lemma unknown_kind_processEvent:
  assumes "eventType e \<notin> set known_kinds"
  shows "processEvent e f now s = saveTransaction (tx_of_event e) now s"
  using assms by (simp add: processEvent_def dispatch_kind)

lemma saveTransaction_length:
  "length (transactions (saveTransaction tx now s)) =
     (if x_tx_digest tx \<in> set (map t_tx_digest (transactions s))
      then length (transactions s) else Suc (length (transactions s)))"
  by (simp add: saveTransaction_def)

lemma saveTransaction_last:
  "x_tx_digest tx \<notin> set (map t_tx_digest (transactions s)) \<Longrightarrow>
   t_event_type (last (transactions (saveTransaction tx now s))) = x_event_type tx \<and>
   t_tx_digest (last (transactions (saveTransaction tx now s))) = x_tx_digest tx"
  by (simp add: saveTransaction_def)

lemma tx_of_event_simps [simp]:
  "x_tx_digest (tx_of_event e) = txDigest e"
  "x_event_type (tx_of_event e) = eventType e"
  by (simp_all add: tx_of_event_def)

lemma empty_db_simps [simp]:
  "nfts (empty_db fk) = []" "listings (empty_db fk) = []" "transactions (empty_db fk) = []"
  "foreign_keys (empty_db fk) = fk"
  by (simp_all add: empty_db_def)

lemma mint_writes_row:
  assumes "mint_writes i (e, f, now)"
  shows "\<exists>r. handleNFTMinted e f now s =
               Done (s\<lparr>nfts := filter (\<lambda>x. n_id x \<noteq> Some i) (nfts s) @ [r]\<rparr>) \<and>
             n_id r = Some i \<and> Some (n_owner r) = creator (parsedJson e) \<and>
             Some (n_creator r) = creator (parsedJson e)"
  using assms
  by (auto simp: mint_writes_def handleNFTMinted_def saveNFT_def basic_info_def full_info_def
      outcome_of_def split: fetch_result.splits option.splits)

lemma mint_then_unknown:
  assumes m: "mint_writes i (minted, f, t1)" and u: "eventType other \<notin> set known_kinds"
    and d: "txDigest minted \<noteq> txDigest other"
  shows "length (nfts (process_all [(minted, f, t1), (other, g, t2)] (empty_db fk))) = 1 \<and>
         length (transactions (process_all [(minted, f, t1), (other, g, t2)] (empty_db fk))) = 2"
proof -
  from m have k: "eventType minted = ''NFTMinted''" by (simp add: mint_writes_def)
  from mint_writes_row [OF m, of "empty_db fk"] obtain r where
    h: "handleNFTMinted minted f t1 (empty_db fk) = Done ((empty_db fk)\<lparr>nfts := [r]\<rparr>)"
    by auto
  have s1: "processEvent minted f t1 (empty_db fk) =
      saveTransaction (tx_of_event minted) t1 ((empty_db fk)\<lparr>nfts := [r]\<rparr>)"
    by (simp add: processEvent_def dispatch_kind k h)
  have t1: "map t_tx_digest (transactions (processEvent minted f t1 (empty_db fk))) = [txDigest minted]"
    and n1: "nfts (processEvent minted f t1 (empty_db fk)) = [r]"
    by (simp_all add: s1 saveTransaction_def)
  have l1: "length (transactions (processEvent minted f t1 (empty_db fk))) = 1"
    using t1 by (metis length_map length_Cons list.size(3) One_nat_def)
  show ?thesis using d t1 l1 n1
    by (simp add: process_delivery_def unknown_kind_processEvent [OF u] saveTransaction_length)
qed

lemma unknown_then_mint:
  assumes m: "mint_writes i (minted, f, t1)" and u: "eventType other \<notin> set known_kinds"
    and d: "txDigest minted \<noteq> txDigest other"
  shows "length (nfts (process_all [(other, g, t2), (minted, f, t1)] (empty_db fk))) = 1 \<and>
         length (transactions (process_all [(other, g, t2), (minted, f, t1)] (empty_db fk))) = 2"
proof -
  from m have k: "eventType minted = ''NFTMinted''" by (simp add: mint_writes_def)
  define s0 where "s0 = saveTransaction (tx_of_event other) t2 (empty_db fk)"
  have n0: "nfts s0 = []" and t0: "map t_tx_digest (transactions s0) = [txDigest other]"
    by (simp_all add: s0_def saveTransaction_def)
  from mint_writes_row [OF m, of s0] obtain r where
    h: "handleNFTMinted minted f t1 s0 = Done (s0\<lparr>nfts := [r]\<rparr>)"
    by (auto simp: n0)
  have s1: "processEvent minted f t1 s0 = saveTransaction (tx_of_event minted) t1 (s0\<lparr>nfts := [r]\<rparr>)"
    by (simp add: processEvent_def dispatch_kind k h)
  have "length (transactions s0) = 1" using t0 by (metis length_map length_Cons list.size(3) One_nat_def)
  then show ?thesis using d t0
    by (simp add: process_delivery_def unknown_kind_processEvent [OF u] s0_def [symmetric] s1
        saveTransaction_length)
qed

text \<open>
  Claim C1, as the code has it.  An event whose kind is none of the four changes neither
  \<^verbatim>\<open>nfts\<close> nor \<^verbatim>\<open>listings\<close>, but the statement after the \<^verbatim>\<open>switch\<close> still runs:
  processing it is exactly the insert into \<^verbatim>\<open>transactions\<close>, which adds one row unless
  the digest is recorded already.  A batch of a Minted event that writes its row and an
  event of an unrecognized kind with another digest leaves one row in \<^verbatim>\<open>nfts\<close> and
  two in \<^verbatim>\<open>transactions\<close>, in either order.
\<close>

theorem unknown_kind_recorded:
  assumes u: "eventType other \<notin> set known_kinds"
  shows "processEvent other g now s = saveTransaction (tx_of_event other) now s \<and>
         nfts (processEvent other g now s) = nfts s \<and>
         listings (processEvent other g now s) = listings s \<and>
         length (transactions (processEvent other g now s)) =
           (if txDigest other \<in> set (map t_tx_digest (transactions s))
            then length (transactions s) else Suc (length (transactions s))) \<and>
         (mint_writes i (minted, f, t1) \<and> txDigest minted \<noteq> txDigest other \<longrightarrow>
            length (nfts (process_all [(minted, f, t1), (other, g, t2)] (empty_db fk))) = 1 \<and>
            length (transactions (process_all [(minted, f, t1), (other, g, t2)] (empty_db fk))) = 2 \<and>
            length (nfts (process_all [(other, g, t2), (minted, f, t1)] (empty_db fk))) = 1 \<and>
            length (transactions (process_all [(other, g, t2), (minted, f, t1)] (empty_db fk))) = 2)"
proof -
  have single: "processEvent other g now s = saveTransaction (tx_of_event other) now s"
    by (rule unknown_kind_processEvent [OF u])
  have batch: "length (nfts (process_all [(minted, f, t1), (other, g, t2)] (empty_db fk))) = 1 \<and>
      length (transactions (process_all [(minted, f, t1), (other, g, t2)] (empty_db fk))) = 2 \<and>
      length (nfts (process_all [(other, g, t2), (minted, f, t1)] (empty_db fk))) = 1 \<and>
      length (transactions (process_all [(other, g, t2), (minted, f, t1)] (empty_db fk))) = 2"
    if m: "mint_writes i (minted, f, t1)" and d: "txDigest minted \<noteq> txDigest other"
    using mint_then_unknown [OF m u d, of g t2 fk] unknown_then_mint [OF m u d, of g t2 fk]
    by simp
  show ?thesis
    using batch by (simp add: single saveTransaction_length)
qed

lemma sample_mint_writes: "mint_writes ''0xX'' (sample_minted, FetchRaises, 10)"
  by (simp add: mint_writes_def)

lemma sample_unknown_kind: "eventType sample_unknown \<notin> set known_kinds"
  by (simp add: known_kinds_def)

theorem unknown_kind_recorded_witness:
  "eventType sample_unknown \<notin> set known_kinds \<and>
   mint_writes ''0xX'' (sample_minted, FetchRaises, 10) \<and>
   txDigest sample_minted \<noteq> txDigest sample_unknown \<and>
   nfts (processEvent sample_unknown FetchRaises 40 (empty_db False)) = [] \<and>
   length (transactions (processEvent sample_unknown FetchRaises 40 (empty_db False))) = 1 \<and>
   length (nfts (process_all [(sample_minted, FetchRaises, 10), (sample_unknown, FetchRaises, 40)]
                   (empty_db False))) = 1 \<and>
   length (transactions (process_all
             [(sample_minted, FetchRaises, 10), (sample_unknown, FetchRaises, 40)]
             (empty_db False))) = 2"
proof -
  have d: "txDigest sample_minted \<noteq> txDigest sample_unknown" by simp
  from sample_unknown_kind sample_mint_writes d
    unknown_kind_recorded [OF sample_unknown_kind, of FetchRaises 40 "empty_db False"
      "''0xX''" sample_minted FetchRaises 10 40 False]
  show ?thesis by (simp add: saveTransaction_length)
qed

text \<open>
  The claim as the specification words it fails: the unrecognized event below is
  recorded in \<^verbatim>\<open>transactions\<close>, and the batch ends with two rows there.
\<close>

theorem unknown_kind_leaves_transaction:
  "eventType sample_unknown \<notin> set known_kinds \<and>
   map t_event_type (transactions (processEvent sample_unknown FetchRaises 40 (empty_db False)))
     = [''NFTBurned''] \<and>
   map t_tx_digest (transactions (process_all
       [(sample_minted, FetchRaises, 10), (sample_unknown, FetchRaises, 40)] (empty_db False)))
     = [''digest1'', ''digest4'']"
  by (simp add: known_kinds_def run_defs)

subsection \<open>A mint whose fetched object has no content\<close>

text \<open>
  Claim C9.  A Minted event whose detail fetch returns an object without content fields
  raises nothing and writes no row of \<^verbatim>\<open>nfts\<close>: the handler completes with the tables
  as they were, and all that processing the event does is the insert into
  \<^verbatim>\<open>transactions\<close>.
\<close>

theorem mint_without_content_dropped:
  assumes "eventType event = ''NFTMinted''"
  shows "handleNFTMinted event (Fetched None) now s = Done s \<and>
         processEvent event (Fetched None) now s = saveTransaction (tx_of_event event) now s \<and>
         nfts (processEvent event (Fetched None) now s) = nfts s \<and>
         listings (processEvent event (Fetched None) now s) = listings s"
  using assms by (simp add: processEvent_def dispatch_def handleNFTMinted_def)

theorem mint_without_content_dropped_witness:
  "eventType sample_minted = ''NFTMinted'' \<and>
   handleNFTMinted sample_minted (Fetched None) 7 (empty_db False) = Done (empty_db False) \<and>
   nfts (processEvent sample_minted (Fetched None) 7 (empty_db False)) = [] \<and>
   map t_tx_digest (transactions (processEvent sample_minted (Fetched None) 7 (empty_db False)))
     = [''digest1'']"
proof -
  have k: "eventType sample_minted = ''NFTMinted''" by simp
  show ?thesis
    using k mint_without_content_dropped [OF k, of 7 "empty_db False"]
    by (simp add: saveTransaction_def tx_of_event_def empty_db_def)
qed

text \<open>
  Claim C3 at the input where the code departs from it.  The sample Minted event carries
  an entity id, a creator and a name, and the detail fetch returns an object without
  content: no row of \<^verbatim>\<open>nfts\<close> is written, while the branch for a fetch that raises
  writes the row from the event's own fields.
\<close>

theorem minted_event_dropped_at_sample:
  "wf_event sample_minted \<and>
   nfts (processEvent sample_minted (Fetched None) 10 (empty_db False)) = [] \<and>
   map n_name (nfts (processEvent sample_minted FetchRaises 10 (empty_db False))) = [''Art'']"
  by (simp add: wf_event_def run_defs)

subsection \<open>The owner of an entity\<close>

lemma find_after_replace:
  "n_id r0 = Some j \<Longrightarrow>
   find (\<lambda>r. n_id r = Some i) (filter (\<lambda>r. n_id r \<noteq> Some j) rows @ [r0]) =
     (if i = j then Some r0 else find (\<lambda>r. n_id r = Some i) rows)"
  by (induction rows) auto

lemma find_after_keyless:
  "n_id r0 = None \<Longrightarrow>
   find (\<lambda>r. n_id r = Some i) (rows @ [r0]) = find (\<lambda>r. n_id r = Some i) rows"
  by (induction rows) auto

lemma find_after_owner_update:
  "find (\<lambda>r. n_id r = Some i)
     (map (\<lambda>r. if n_id r = Some j then r\<lparr>n_owner := b, n_updated_at := t\<rparr> else r) rows) =
   map_option (\<lambda>r. if i = j then r\<lparr>n_owner := b, n_updated_at := t\<rparr> else r)
     (find (\<lambda>r. n_id r = Some i) rows)"
  by (induction rows) auto

lemma owner_of_saveTransaction [simp]: "owner_of i (saveTransaction tx now s) = owner_of i s"
  by (simp add: owner_of_def getNFT_def)

lemma owner_of_processEvent:
  "owner_of i (processEvent e f now s) = owner_of i (outcome_db (dispatch e f now s))"
  by (simp add: processEvent_split)

lemma owner_after_saveNFT:
  "owner_of i (outcome_db (outcome_of s (saveNFT nft now s))) =
     (if a_id nft = Some i \<and> a_name nft \<noteq> None \<and> a_creator nft \<noteq> None \<and> a_owner nft \<noteq> None
      then a_owner nft else owner_of i s)"
  by (auto simp: saveNFT_def outcome_of_def owner_of_def getNFT_def find_after_replace
      find_after_keyless split: option.splits)

lemma saveNFT_raises:
  "saveNFT nft now s = Inl err \<Longrightarrow>
   a_name nft = None \<or> a_creator nft = None \<or> a_owner nft = None"
  by (auto simp: saveNFT_def split: option.splits)

lemma owner_after_mint:
  assumes k: "eventType e = ''NFTMinted''"
  shows "owner_of i (outcome_db (handleNFTMinted e f now s)) =
     (if mint_writes i (e, f, now) then creator (parsedJson e) else owner_of i s)"
proof (cases f)
  case FetchRaises
  then show ?thesis
    using k owner_after_saveNFT [of i s "basic_info e" now]
    by (auto simp: handleNFTMinted_def mint_writes_def basic_info_def)
next
  case (Fetched content)
  show ?thesis
  proof (cases content)
    case None
    with Fetched k show ?thesis by (simp add: handleNFTMinted_def mint_writes_def)
  next
    case (Some flds)
    show ?thesis
    proof (cases "saveNFT (full_info e flds) now s")
      case (Inr s')
      then have "handleNFTMinted e f now s = outcome_of s (saveNFT (full_info e flds) now s)"
        by (simp add: handleNFTMinted_def Fetched Some outcome_of_def)
      moreover from Inr have "a_name (full_info e flds) \<noteq> None"
        "a_creator (full_info e flds) \<noteq> None"
        by (auto simp: saveNFT_def split: option.splits)
      ultimately show ?thesis
        using k owner_after_saveNFT [of i s "full_info e flds" now]
        by (auto simp: mint_writes_def full_info_def Fetched Some)
    next
      case (Inl err)
      from saveNFT_raises [OF Inl]
      have bad: "str_or (f_name flds) (name (parsedJson e)) = None \<or> creator (parsedJson e) = None"
        by (auto simp: full_info_def)
      then have nb: "name (parsedJson e) = None \<or> creator (parsedJson e) = None"
        by (auto simp: str_or_def split: option.splits)
      have "handleNFTMinted e f now s = outcome_of s (saveNFT (basic_info e) now s)"
        by (simp add: handleNFTMinted_def Fetched Some Inl)
      then show ?thesis
        using k bad nb owner_after_saveNFT [of i s "basic_info e" now]
        by (auto simp: mint_writes_def basic_info_def Fetched Some)
    qed
  qed
qed

lemma owner_after_listed:
  "owner_of i (outcome_db (handleNFTListed e now s)) = owner_of i s"
  by (auto simp: handleNFTListed_def saveListing_def outcome_of_def owner_of_def getNFT_def
      split: option.splits)

lemma owner_after_delisted:
  "owner_of i (outcome_db (handleNFTDelisted e now s)) = owner_of i s"
  by (auto simp: handleNFTDelisted_def updateListingStatus_def outcome_of_def owner_of_def
      getNFT_def split: option.splits)

lemma owner_after_purchased:
  assumes k: "eventType e = ''NFTPurchased''"
  shows "owner_of i (outcome_db (handleNFTPurchased e now s)) =
     (if purchase_names i (e, f, now) \<and> owner_of i s \<noteq> None then buyer (parsedJson e)
      else owner_of i s)"
  using k
  by (cases "find (\<lambda>r. n_id r = Some i) (nfts s)")
     (auto simp: purchase_names_def handleNFTPurchased_def updateListingStatus_def
      updateNFTOwner_def outcome_of_def owner_of_def getNFT_def find_after_owner_update
      split: option.splits)

lemma owner_of_step:
  "owner_of i (process_delivery d s) =
     (if mint_writes i d then creator (parsedJson (fst d))
      else if purchase_names i d \<and> owner_of i s \<noteq> None then buyer (parsedJson (fst d))
      else owner_of i s)"
proof -
  obtain e f now where d: "d = (e, f, now)" by (cases d)
  consider (m) "eventType e = ''NFTMinted''" | (l) "eventType e = ''NFTListed''"
    | (p) "eventType e = ''NFTPurchased''" | (dl) "eventType e = ''NFTDelisted''"
    | (u) "eventType e \<notin> set known_kinds"
    by (auto simp: known_kinds_def)
  then show ?thesis
  proof cases
    case m
    then have "\<not> purchase_names i d" by (simp add: purchase_names_def d)
    with m show ?thesis
      by (simp add: d process_delivery_def owner_of_processEvent dispatch_kind owner_after_mint)
  next
    case l
    then have "\<not> purchase_names i d" "\<not> mint_writes i d"
      by (simp_all add: purchase_names_def mint_writes_def d)
    with l show ?thesis
      by (simp add: d process_delivery_def owner_of_processEvent dispatch_kind owner_after_listed)
  next
    case p
    then have "\<not> mint_writes i d" by (simp add: mint_writes_def d)
    with p show ?thesis
      using owner_after_purchased [OF p, of i now s f]
      by (auto simp: d process_delivery_def owner_of_processEvent dispatch_kind)
  next
    case dl
    then have "\<not> purchase_names i d" "\<not> mint_writes i d"
      by (simp_all add: purchase_names_def mint_writes_def d)
    with dl show ?thesis
      by (simp add: d process_delivery_def owner_of_processEvent dispatch_kind owner_after_delisted)
  next
    case u
    then have "\<not> purchase_names i d" "\<not> mint_writes i d"
      by (auto simp: purchase_names_def mint_writes_def d known_kinds_def)
    with u show ?thesis
      by (simp add: d process_delivery_def owner_of_processEvent dispatch_kind)
  qed
qed

lemma process_all_snoc: "process_all (ds @ [d]) s = process_delivery d (process_all ds s)"
  by (induction ds arbitrary: s) simp_all

lemma owner_of_empty [simp]: "owner_of i (empty_db fk) = None"
  by (simp add: owner_of_def getNFT_def)

lemma owner_of_run:
  "owner_of i (process_all ds (empty_db fk)) = owner_since_mint i (rev ds)"
  by (induction ds rule: rev_induct) (auto simp: process_all_snoc owner_of_step)

lemma find_in_set: "find P xs = Some x \<Longrightarrow> x \<in> set xs \<and> P x"
  by (induction xs) (auto split: if_splits)

lemma owner_has_row: "owner_of i s \<noteq> None \<Longrightarrow> Some i \<in> set (map n_id (nfts s))"
  by (auto simp: owner_of_def getNFT_def dest!: find_in_set intro: rev_image_eqI)

lemma keyed_ids_append: "keyed_ids (xs @ ys) = keyed_ids xs @ keyed_ids ys"
  by (simp add: keyed_ids_def)

lemma keyed_ids_single: "keyed_ids [r] = (if n_id r = None then [] else [n_id r])"
  by (simp add: keyed_ids_def)

lemma keyed_ids_without:
  "keyed_ids (filter (\<lambda>r. n_id r \<noteq> Some i) rows) = filter (\<lambda>j. j \<noteq> Some i) (keyed_ids rows)"
  by (induction rows) (auto simp: keyed_ids_def)

lemma nfts_ok_saveNFT:
  assumes "saveNFT nft now s = Inr s'" and "a_owner nft = a_creator nft" and "nfts_ok (nfts s)"
  shows "nfts_ok (nfts s')"
proof -
  define r where "r = last (nfts s')"
  from assms(1,2) have r: "n_id r = a_id nft" "n_owner r = n_creator r"
    and rows: "nfts s' = (case a_id nft of None \<Rightarrow> nfts s
        | Some i \<Rightarrow> filter (\<lambda>x. n_id x \<noteq> Some i) (nfts s)) @ [r]"
    by (auto simp: saveNFT_def r_def split: option.splits)
  from assms(3) have d: "distinct (keyed_ids (nfts s))" and k: "list_all keyless_ok (nfts s)"
    by (simp_all add: nfts_ok_def)
  show ?thesis
  proof (cases "a_id nft")
    case None
    with r rows d k show ?thesis
      by (simp add: nfts_ok_def keyed_ids_append keyed_ids_single keyless_ok_def)
  next
    case (Some i)
    from k have "list_all keyless_ok (filter (\<lambda>x. n_id x \<noteq> Some i) (nfts s))"
      by (simp add: list_all_iff)
    with Some r rows d show ?thesis
      by (simp add: nfts_ok_def keyed_ids_append keyed_ids_single keyed_ids_without
          keyless_ok_def)
  qed
qed

lemma owner_update_keeps_ids:
  "map n_id (map (\<lambda>r. if n_id r = Some i then r\<lparr>n_owner := ow, n_updated_at := now\<rparr> else r)
     rows) = map n_id rows"
  by (induction rows) auto

lemma owner_update_keeps_keyless:
  "list_all keyless_ok rows \<Longrightarrow>
   list_all keyless_ok
     (map (\<lambda>r. if n_id r = Some i then r\<lparr>n_owner := ow, n_updated_at := now\<rparr> else r) rows)"
  by (induction rows) (auto simp: keyless_ok_def)

lemma nfts_ok_updateNFTOwner:
  assumes "updateNFTOwner nftId newOwner now s = Inr s'" and "nfts_ok (nfts s)"
  shows "nfts_ok (nfts s')"
proof -
  have "nfts s' = nfts s \<or>
      (\<exists>i ow. nfts s' = map (\<lambda>r. if n_id r = Some i
        then r\<lparr>n_owner := ow, n_updated_at := now\<rparr> else r) (nfts s))"
  proof (cases nftId)
    case None
    with assms(1) show ?thesis by (simp add: updateNFTOwner_def)
  next
    case (Some i)
    show ?thesis
    proof (cases newOwner)
      case None
      with Some assms(1) show ?thesis by (auto simp: updateNFTOwner_def split: if_splits)
    next
      case (Some ow)
      with \<open>nftId = Some i\<close> assms(1)
      have "nfts s' = map (\<lambda>r. if n_id r = Some i
          then r\<lparr>n_owner := ow, n_updated_at := now\<rparr> else r) (nfts s)"
        by (auto simp: updateNFTOwner_def)
      then show ?thesis by blast
    qed
  qed
  then consider (same) "nfts s' = nfts s"
    | (upd) i ow where "nfts s' = map (\<lambda>r. if n_id r = Some i
        then r\<lparr>n_owner := ow, n_updated_at := now\<rparr> else r) (nfts s)"
    by blast
  then show ?thesis
  proof cases
    case same
    with assms(2) show ?thesis by simp
  next
    case upd
    from assms(2) have d: "distinct (keyed_ids (nfts s))" and k: "list_all keyless_ok (nfts s)"
      by (simp_all add: nfts_ok_def)
    have "keyed_ids (nfts s') = keyed_ids (nfts s)"
      by (simp only: upd keyed_ids_def owner_update_keeps_ids)
    with d owner_update_keeps_keyless [OF k, where i = i and ow = ow and now = now]
    show ?thesis
      by (simp add: nfts_ok_def upd)
  qed
qed

lemma mint_result:
  "nfts (outcome_db (handleNFTMinted e f now s)) = nfts s \<or>
   (\<exists>nft s'. saveNFT nft now s = Inr s' \<and> a_owner nft = a_creator nft \<and>
      nfts (outcome_db (handleNFTMinted e f now s)) = nfts s')"
proof -
  have basic: "a_owner (basic_info e) = a_creator (basic_info e)" by (simp add: basic_info_def)
  have full: "a_owner (full_info e flds) = a_creator (full_info e flds)" for flds
    by (simp add: full_info_def)
  show ?thesis
    using basic full
    by (auto simp: handleNFTMinted_def outcome_of_def split: fetch_result.splits option.splits
        sum.splits)
qed

lemma nfts_ok_after_purchased:
  assumes ok: "nfts_ok (nfts s)"
  shows "nfts_ok (nfts (outcome_db (handleNFTPurchased e now s)))"
proof -
  obtain s1 where s1: "updateListingStatus (nft_id (parsedJson e)) ''sold'' now s = Inr s1"
    and n1: "nfts s1 = nfts s"
    by (cases "nft_id (parsedJson e)") (auto simp: updateListingStatus_def)
  show ?thesis
  proof (cases "updateNFTOwner (nft_id (parsedJson e)) (buyer (parsedJson e)) now s1")
    case (Inl err)
    then show ?thesis by (simp add: handleNFTPurchased_def s1 outcome_of_def n1 ok)
  next
    case (Inr s')
    from nfts_ok_updateNFTOwner [OF Inr] ok n1 have "nfts_ok (nfts s')" by simp
    then show ?thesis by (simp add: handleNFTPurchased_def s1 outcome_of_def Inr)
  qed
qed

lemma nfts_after_listed: "nfts (outcome_db (handleNFTListed e now s)) = nfts s"
  by (auto simp: handleNFTListed_def saveListing_def outcome_of_def split: option.splits)

lemma nfts_after_delisted: "nfts (outcome_db (handleNFTDelisted e now s)) = nfts s"
  by (auto simp: handleNFTDelisted_def updateListingStatus_def outcome_of_def split: option.splits)

lemma nfts_ok_step:
  assumes ok: "nfts_ok (nfts s)"
  shows "nfts_ok (nfts (process_delivery d s))"
proof -
  obtain e f now where d: "d = (e, f, now)" by (cases d)
  consider (m) "eventType e = ''NFTMinted''" | (l) "eventType e = ''NFTListed''"
    | (p) "eventType e = ''NFTPurchased''" | (dl) "eventType e = ''NFTDelisted''"
    | (u) "eventType e \<notin> set known_kinds"
    by (auto simp: known_kinds_def)
  then show ?thesis
  proof cases
    case m
    with mint_result [of e f now s] ok nfts_ok_saveNFT [of _ now s] show ?thesis
      by (auto simp: d process_delivery_def nfts_processEvent dispatch_kind)
  next
    case p
    with nfts_ok_after_purchased [OF ok, of e now] show ?thesis
      by (simp add: d process_delivery_def nfts_processEvent dispatch_kind)
  qed (simp_all add: ok d process_delivery_def nfts_processEvent dispatch_kind nfts_after_listed
      nfts_after_delisted)
qed

lemma nfts_ok_run: "nfts_ok (nfts (process_all ds (empty_db fk)))"
  by (induction ds rule: rev_induct)
     (simp_all add: process_all_snoc nfts_ok_step, simp add: nfts_ok_def keyed_ids_def)

lemma find_keyed:
  "distinct (keyed_ids rows) \<Longrightarrow> r \<in> set rows \<Longrightarrow> n_id r = Some i \<Longrightarrow>
   find (\<lambda>x. n_id x = Some i) rows = Some r"
proof (induction rows)
  case Nil
  then show ?case by simp
next
  case (Cons x rows)
  show ?case
  proof (cases "n_id x = Some i")
    case True
    have "r = x"
    proof (rule ccontr)
      assume "r \<noteq> x"
      with Cons.prems have "r \<in> set rows" by simp
      with Cons.prems(3) have "Some i \<in> set (keyed_ids rows)"
        by (force simp: keyed_ids_def)
      with Cons.prems(1) True show False by (simp add: keyed_ids_def)
    qed
    with True show ?thesis by simp
  next
    case False
    with Cons.prems have "r \<in> set rows" "distinct (keyed_ids rows)"
      by (auto simp: keyed_ids_def split: if_splits)
    with Cons.IH Cons.prems(3) False show ?thesis by simp
  qed
qed

lemma redelivered_nfts: "nfts (process_all redelivered (empty_db False)) = [minted_again_row]"
  by (simp add: redelivered_def minted_again_row_def run_defs)

lemma redelivered_claimed: "claimed_owner redelivered minted_again_row = Some ''0xB''"
  by (simp add: redelivered_def minted_again_row_def claimed_owner_def purchases_of_def)

text \<open>
  Claim C2, as the code has it.  In the store reached from the empty one by any sequence
  of deliveries, the owner of every row of \<^verbatim>\<open>nfts\<close> that has an id is the buyer of the
  most recent Purchased event for that id processed since a Minted event last wrote the
  row, or the creator that the Minted event gave when no such purchase followed:
  \<^verbatim>\<open>saveNFT\<close> replaces the row, owner included.  A row without an id, written by a
  Minted event that carries none, is the row of no entity and stays with its creator.
\<close>

theorem owner_since_last_mint:
  assumes "r \<in> set (nfts (process_all ds (empty_db fk)))"
  shows "case n_id r of
           Some i \<Rightarrow> Some (n_owner r) = owner_since_mint i (rev ds)
         | None \<Rightarrow> n_owner r = n_creator r"
proof (cases "n_id r")
  case None
  with assms nfts_ok_run [of ds fk] show ?thesis
    by (auto simp: nfts_ok_def list_all_iff keyless_ok_def)
next
  case (Some i)
  from nfts_ok_run [of ds fk] have "distinct (keyed_ids (nfts (process_all ds (empty_db fk))))"
    by (simp add: nfts_ok_def)
  from find_keyed [OF this assms Some]
  have "owner_of i (process_all ds (empty_db fk)) = Some (n_owner r)"
    by (simp add: owner_of_def getNFT_def)
  with Some show ?thesis by (simp add: owner_of_run)
qed

theorem owner_since_last_mint_witness:
  "minted_again_row \<in> set (nfts (process_all redelivered (empty_db False))) \<and>
   n_id minted_again_row = Some ''0xX'' \<and>
   Some (n_owner minted_again_row) = owner_since_mint ''0xX'' (rev redelivered) \<and>
   n_owner minted_again_row = ''0xA''"
proof -
  have row: "minted_again_row \<in> set (nfts (process_all redelivered (empty_db False)))"
    by (simp add: redelivered_nfts)
  have key: "n_id minted_again_row = Some ''0xX''" by (simp add: minted_again_row_def)
  from owner_since_last_mint [OF row] key
  have "Some (n_owner minted_again_row) = owner_since_mint ''0xX'' (rev redelivered)" by simp
  with row key show ?thesis by (simp add: minted_again_row_def)
qed

text \<open>
  The claim as the specification words it fails when a Minted event is delivered again
  after the purchase: the row is owned by the creator, the most recent Purchased event
  names another buyer.
\<close>

theorem owner_not_last_buyer:
  "minted_again_row \<in> set (nfts (process_all redelivered (empty_db False))) \<and>
   Some (n_owner minted_again_row) \<noteq> claimed_owner redelivered minted_again_row"
  by (simp add: redelivered_nfts redelivered_claimed) (simp add: minted_again_row_def)

subsection \<open>A purchase before and after the listing\<close>

lemma listings_after_mint:
  "listings (outcome_db (handleNFTMinted e f now s)) = listings s"
  by (auto simp: handleNFTMinted_def saveNFT_def outcome_of_def
      split: fetch_result.splits option.splits sum.splits)

lemma listings_after_listed:
  assumes "nft_id (parsedJson e) = Some i" "seller (parsedJson e) = Some sl"
    "price (parsedJson e) = Some p" "Some i \<in> set (map n_id (nfts s))"
  shows "listings (outcome_db (handleNFTListed e now s)) =
     filter (\<lambda>r. l_nft_id r \<noteq> Some i) (listings s) @
       [\<lparr>l_nft_id = Some i, l_seller = sl, l_price = p, l_status = ''active'',
         l_listed_at = num_or (parseInt_field (timestampMs e)) now, l_updated_at = now\<rparr>]"
    and "nfts (outcome_db (handleNFTListed e now s)) = nfts s"
  using assms by (auto simp: handleNFTListed_def saveListing_def outcome_of_def)

lemma tables_after_purchased:
  assumes "nft_id (parsedJson e) = Some i" "buyer (parsedJson e) = Some b"
  shows "listings (outcome_db (handleNFTPurchased e now s)) =
     map (\<lambda>r. if l_nft_id r = Some i then r\<lparr>l_status := ''sold'', l_updated_at := now\<rparr> else r)
       (listings s)"
    and "nfts (outcome_db (handleNFTPurchased e now s)) =
     map (\<lambda>r. if n_id r = Some i then r\<lparr>n_owner := b, n_updated_at := now\<rparr> else r) (nfts s)"
  using assms
  by (auto simp: handleNFTPurchased_def updateListingStatus_def updateNFTOwner_def outcome_of_def)

text \<open>
  After a Minted event that writes the row of \<open>x\<close>, a Listed event for \<open>x\<close> and a
  Purchased event for \<open>x\<close> with buyer \<open>b\<close>, the owner of \<open>x\<close> is \<open>b\<close> and its
  listing is sold.  With the Purchased event before the Listed one the update of the
  listing status finds no row and changes nothing, without an error; the owner is \<open>b\<close>
  all the same, and the listing written afterwards is active.
\<close>

lemma purchase_before_or_after_listing:
  assumes m: "mint_writes x (minted, f, t1)"
    and l: "eventType listed = ''NFTListed''" "nft_id (parsedJson listed) = Some x"
      "seller (parsedJson listed) = Some sl" "price (parsedJson listed) = Some p"
    and p: "eventType purchased = ''NFTPurchased''" "nft_id (parsedJson purchased) = Some x"
      "buyer (parsedJson purchased) = Some b"
  shows "owner_of x (process_all [(minted, f, t1), (listed, g, t2), (purchased, h, t3)]
           (empty_db fk)) = Some b \<and>
         status_of x (process_all [(minted, f, t1), (listed, g, t2), (purchased, h, t3)]
           (empty_db fk)) = Some ''sold'' \<and>
         listings (process_all [(minted, f, t1)] (empty_db fk)) = [] \<and>
         updateListingStatus (Some x) ''sold'' t3 (process_all [(minted, f, t1)] (empty_db fk)) =
           Inr (process_all [(minted, f, t1)] (empty_db fk)) \<and>
         listings (process_all [(minted, f, t1), (purchased, h, t3)] (empty_db fk)) = [] \<and>
         owner_of x (process_all [(minted, f, t1), (purchased, h, t3), (listed, g, t2)]
           (empty_db fk)) = Some b \<and>
         status_of x (process_all [(minted, f, t1), (purchased, h, t3), (listed, g, t2)]
           (empty_db fk)) = Some ''active''"
proof -
  from m have mk: "eventType minted = ''NFTMinted''" by (simp add: mint_writes_def)
  have pn: "purchase_names x (purchased, h, t3)" "\<not> mint_writes x (purchased, h, t3)"
    using p by (simp_all add: purchase_names_def mint_writes_def)
  have ln: "\<not> purchase_names x (listed, g, t2)" "\<not> mint_writes x (listed, g, t2)"
    using l by (simp_all add: purchase_names_def mint_writes_def)
  from m obtain c where c: "creator (parsedJson minted) = Some c"
    by (auto simp: mint_writes_def)
  define s1 where "s1 = process_delivery (minted, f, t1) (empty_db fk)"
  have o1: "owner_of x s1 = Some c"
    using m c by (simp add: s1_def owner_of_step)
  then have row1: "Some x \<in> set (map n_id (nfts s1))" using owner_has_row [of x s1] by simp
  have l1: "listings s1 = []"
    by (simp add: s1_def process_delivery_def listings_processEvent dispatch_kind mk
        listings_after_mint)
  have upd: "updateListingStatus (Some x) ''sold'' t3 s1 = Inr s1"
    by (simp add: updateListingStatus_def l1)
  define s2 where "s2 = process_delivery (listed, g, t2) s1"
  have l2: "map l_nft_id (listings s2) = [Some x]" "map l_status (listings s2) = [''active'']"
    using listings_after_listed(1) [OF l(2,3,4) row1]
    by (simp_all add: s2_def process_delivery_def listings_processEvent dispatch_kind l(1) l1)
  define s3 where "s3 = process_delivery (purchased, h, t3) s2"
  have o3: "owner_of x s3 = Some b"
    using pn ln o1 p(3) by (simp add: s3_def s2_def owner_of_step)
  have l3: "map l_status (listings s3) = [''sold'']"
    using l2 tables_after_purchased(1) [OF p(2,3), of t3 s2]
    by (cases "listings s2")
       (auto simp: s3_def process_delivery_def listings_processEvent dispatch_kind p(1))
  have id3: "map l_nft_id (listings s3) = [Some x]"
    using l2 tables_after_purchased(1) [OF p(2,3), of t3 s2]
    by (cases "listings s2")
       (auto simp: s3_def process_delivery_def listings_processEvent dispatch_kind p(1))
  have st3: "status_of x s3 = Some ''sold''"
    using l3 id3 by (cases "listings s3") (auto simp: status_of_def getListing_def)
  define s2' where "s2' = process_delivery (purchased, h, t3) s1"
  have l2': "listings s2' = []"
    using tables_after_purchased(1) [OF p(2,3), of t3 s1]
    by (simp add: s2'_def process_delivery_def listings_processEvent dispatch_kind p(1) l1)
  have o2': "owner_of x s2' = Some b"
    using pn o1 p(3) by (simp add: s2'_def owner_of_step)
  then have row2': "Some x \<in> set (map n_id (nfts s2'))" using owner_has_row [of x s2'] by simp
  define s3' where "s3' = process_delivery (listed, g, t2) s2'"
  have o3': "owner_of x s3' = Some b"
    using ln o2' by (simp add: s3'_def owner_of_step)
  have st3': "status_of x s3' = Some ''active''"
    using listings_after_listed(1) [OF l(2,3,4) row2', of t2]
    by (simp add: s3'_def process_delivery_def listings_processEvent dispatch_kind l(1) l2'
        status_of_def getListing_def)
  show ?thesis
    using o3 st3 l1 upd l2' o3' st3'
    by (simp add: s1_def s2_def s3_def s2'_def s3'_def)
qed

text \<open>
  Claim C6 at the input where the code departs from it.  The three sample events are
  processed in both orders, and the detail fetch of the Minted event returns an object
  without content: the handler writes no row, so the entity has no owner at the end of
  either order, whatever the Purchased event says.  With the foreign key off the listing
  is stored and sold; with it on there is no listing either.
\<close>

theorem purchase_without_entity_row:
  "owner_of ''0xX'' (process_all unfetched_in_order (empty_db False)) = None \<and>
   owner_of ''0xX'' (process_all unfetched_out_of_order (empty_db False)) = None \<and>
   status_of ''0xX'' (process_all unfetched_in_order (empty_db False)) = Some ''sold'' \<and>
   nfts (process_all unfetched_in_order (empty_db True)) = [] \<and>
   listings (process_all unfetched_in_order (empty_db True)) = [] \<and>
   nfts (process_all unfetched_out_of_order (empty_db True)) = []"
  by (simp add: unfetched_in_order_def unfetched_out_of_order_def run_defs owner_of_def
      getNFT_def status_of_def getListing_def)

subsection \<open>The transactions table\<close>

lemma transactions_processEvent:
  "transactions (processEvent e f now s) =
     (if completes (dispatch e f now s) then transactions (saveTransaction (tx_of_event e) now s)
      else transactions s)"
proof -
  have "transactions (saveTransaction tx now a) = transactions (saveTransaction tx now b)"
    if "transactions a = transactions b" for tx a b
    using that by (simp add: saveTransaction_def)
  from this [OF dispatch_keeps_transactions [of e f now s]] show ?thesis
    by (simp add: processEvent_split dispatch_keeps_transactions)
qed

lemma tx_unique_saveTransaction: "tx_unique s \<Longrightarrow> tx_unique (saveTransaction tx now s)"
  by (simp add: tx_unique_def saveTransaction_def)

lemma tx_unique_step: "tx_unique s \<Longrightarrow> tx_unique (process_delivery d s)"
  using tx_unique_saveTransaction
  by (cases d) (simp add: process_delivery_def tx_unique_def transactions_processEvent)

lemma digests_kept_saveTransaction:
  "d \<in> set (map t_tx_digest (transactions s)) \<Longrightarrow>
   d \<in> set (map t_tx_digest (transactions (saveTransaction tx now s)))"
  by (simp add: saveTransaction_def)

lemma digests_kept_step:
  "d \<in> set (map t_tx_digest (transactions s)) \<Longrightarrow>
   d \<in> set (map t_tx_digest (transactions (process_delivery dl s)))"
  using digests_kept_saveTransaction
  by (cases dl) (simp add: process_delivery_def transactions_processEvent)

lemma tx_unique_run: "tx_unique s \<Longrightarrow> tx_unique (process_all ds s)"
  by (induction ds arbitrary: s) (simp_all add: tx_unique_step)

lemma digests_kept_run:
  "d \<in> set (map t_tx_digest (transactions s)) \<Longrightarrow>
   d \<in> set (map t_tx_digest (transactions (process_all ds s)))"
proof (induction ds arbitrary: s)
  case Nil
  then show ?case by simp
next
  case (Cons dl ds)
  from Cons.IH [OF digests_kept_step [OF Cons.prems, of dl]] show ?case by simp
qed

subsection \<open>A Purchased event applied twice\<close>

lemma purchased_tables:
  assumes k: "eventType e = ''NFTPurchased''"
  shows "listings (processEvent e f now s) =
      (case nft_id (parsedJson e) of
         None \<Rightarrow> listings s
       | Some i \<Rightarrow> map (\<lambda>r. if l_nft_id r = Some i
                              then r\<lparr>l_status := ''sold'', l_updated_at := now\<rparr> else r)
                     (listings s))"
    and "nfts (processEvent e f now s) =
      (case (nft_id (parsedJson e), buyer (parsedJson e)) of
         (Some i, Some b) \<Rightarrow> map (\<lambda>r. if n_id r = Some i
                                      then r\<lparr>n_owner := b, n_updated_at := now\<rparr> else r)
                             (nfts s)
       | _ \<Rightarrow> nfts s)"
    and "completes (dispatch e f now s) =
      (nft_id (parsedJson e) = None \<or> buyer (parsedJson e) \<noteq> None \<or>
       nft_id (parsedJson e) \<notin> set (map n_id (nfts s)))"
  using k
  by (auto simp: nfts_processEvent listings_processEvent dispatch_kind handleNFTPurchased_def
      updateListingStatus_def updateNFTOwner_def outcome_of_def split: option.splits)

lemma purchased_keeps_ids:
  assumes k: "eventType e = ''NFTPurchased''"
  shows "map n_id (nfts (processEvent e f now s)) = map n_id (nfts s)"
  by (auto simp: purchased_tables(2) [OF k] owner_update_keeps_ids split: option.splits)

lemma saveTransaction_again:
  "transactions (saveTransaction tx t2 s') = transactions s'"
  if "x_tx_digest tx \<in> set (map t_tx_digest (transactions s'))"
  using that by (simp add: saveTransaction_def)

lemma saveTransaction_has_digest:
  "x_tx_digest tx \<in> set (map t_tx_digest (transactions (saveTransaction tx now s)))"
  by (simp add: saveTransaction_def)

lemma db_eqI:
  "nfts a = nfts b \<Longrightarrow> listings a = listings b \<Longrightarrow> transactions a = transactions b \<Longrightarrow>
   foreign_keys a = foreign_keys b \<Longrightarrow> (a::db) = b"
  by simp

text \<open>
  Claim C5, as the code has it.  Applying a Purchased event a second time leaves
  \<^verbatim>\<open>transactions\<close> as the first application left it, and \<^verbatim>\<open>nfts\<close> and
  \<^verbatim>\<open>listings\<close> as one application at the time of the second would leave them: status
  and owner are overwritten with the same values, every column but \<^verbatim>\<open>updated_at\<close>
  agrees with the store after the first application, and \<^verbatim>\<open>updated_at\<close> holds the time
  of the second.  When the clock shows the same time the store does not change at all.
\<close>

theorem purchase_twice:
  assumes k: "eventType event = ''NFTPurchased''"
  shows "transactions (processEvent event f2 t2 (processEvent event f1 t1 s)) =
           transactions (processEvent event f1 t1 s) \<and>
         nfts (processEvent event f2 t2 (processEvent event f1 t1 s)) =
           nfts (processEvent event f2 t2 s) \<and>
         listings (processEvent event f2 t2 (processEvent event f1 t1 s)) =
           listings (processEvent event f2 t2 s) \<and>
         map (\<lambda>r. r\<lparr>n_updated_at := 0\<rparr>) (nfts (processEvent event f2 t2 (processEvent event f1 t1 s))) =
           map (\<lambda>r. r\<lparr>n_updated_at := 0\<rparr>) (nfts (processEvent event f1 t1 s)) \<and>
         map (\<lambda>r. r\<lparr>l_updated_at := 0\<rparr>)
             (listings (processEvent event f2 t2 (processEvent event f1 t1 s))) =
           map (\<lambda>r. r\<lparr>l_updated_at := 0\<rparr>) (listings (processEvent event f1 t1 s)) \<and>
         processEvent event f2 t1 (processEvent event f1 t1 s) = processEvent event f1 t1 s"
proof -
  have again: "completes (dispatch event g t (processEvent event f1 t1 s)) =
      completes (dispatch event f1 t1 s)" for g t
    by (simp add: purchased_tables(3) [OF k] purchased_keeps_ids [OF k])
  have tx: "transactions (processEvent event g t (processEvent event f1 t1 s)) =
           transactions (processEvent event f1 t1 s)" for g t
  proof (cases "completes (dispatch event f1 t1 s)")
    case True
    then have "txDigest event \<in> set (map t_tx_digest (transactions (processEvent event f1 t1 s)))"
      using saveTransaction_has_digest [of "tx_of_event event" t1 s]
      by (simp add: transactions_processEvent)
    then show ?thesis
      by (simp add: transactions_processEvent [of event g t] saveTransaction_again)
  next
    case False
    then show ?thesis by (simp add: transactions_processEvent [of event g t] again)
  qed
  have n: "nfts (processEvent event g t (processEvent event f1 t1 s)) =
           nfts (processEvent event g t s)" for g t
    by (auto simp: purchased_tables(2) [OF k] split: option.splits)
  have l: "listings (processEvent event g t (processEvent event f1 t1 s)) =
           listings (processEvent event g t s)" for g t
    by (auto simp: purchased_tables(1) [OF k] split: option.splits)
  have n0: "map (\<lambda>r. r\<lparr>n_updated_at := 0\<rparr>) (nfts (processEvent event f2 t2 s)) =
            map (\<lambda>r. r\<lparr>n_updated_at := 0\<rparr>) (nfts (processEvent event f1 t1 s))"
    by (auto simp: purchased_tables(2) [OF k] split: option.splits)
  have l0: "map (\<lambda>r. r\<lparr>l_updated_at := 0\<rparr>) (listings (processEvent event f2 t2 s)) =
            map (\<lambda>r. r\<lparr>l_updated_at := 0\<rparr>) (listings (processEvent event f1 t1 s))"
    by (auto simp: purchased_tables(1) [OF k] split: option.splits)
  have same: "processEvent event f2 t1 (processEvent event f1 t1 s) = processEvent event f1 t1 s"
  proof (rule db_eqI)
    show "nfts (processEvent event f2 t1 (processEvent event f1 t1 s)) =
          nfts (processEvent event f1 t1 s)"
      by (auto simp: purchased_tables(2) [OF k] split: option.splits)
    show "listings (processEvent event f2 t1 (processEvent event f1 t1 s)) =
          listings (processEvent event f1 t1 s)"
      by (auto simp: purchased_tables(1) [OF k] split: option.splits)
    show "transactions (processEvent event f2 t1 (processEvent event f1 t1 s)) =
          transactions (processEvent event f1 t1 s)" by (rule tx)
    show "foreign_keys (processEvent event f2 t1 (processEvent event f1 t1 s)) =
          foreign_keys (processEvent event f1 t1 s)"
      by (simp add: foreign_keys_processEvent)
  qed
  show ?thesis using tx [of f2 t2] n [of f2 t2] l [of f2 t2] n0 l0 same by simp
qed

lemma sold_stores:
  "nfts sold_once =
     [\<lparr>n_id = Some ''0xX'', n_name = ''Art'', n_description = [], n_image_url = [],
       n_creator = ''0xA'', n_owner = ''0xB'', n_created_at = Finite 1000, n_updated_at = 30\<rparr>]"
  "nfts sold_twice =
     [\<lparr>n_id = Some ''0xX'', n_name = ''Art'', n_description = [], n_image_url = [],
       n_creator = ''0xA'', n_owner = ''0xB'', n_created_at = Finite 1000, n_updated_at = 5030\<rparr>]"
  "listings sold_once =
     [\<lparr>l_nft_id = Some ''0xX'', l_seller = ''0xA'', l_price = ''100'', l_status = ''sold'',
       l_listed_at = Finite 2000, l_updated_at = 30\<rparr>]"
  "listings sold_twice =
     [\<lparr>l_nft_id = Some ''0xX'', l_seller = ''0xA'', l_price = ''100'', l_status = ''sold'',
       l_listed_at = Finite 2000, l_updated_at = 5030\<rparr>]"
  "map t_tx_digest (transactions sold_once) = [''digest1'', ''digest2'', ''digest3'']"
  by (simp_all add: sold_twice_def sold_once_def listed_store_def run_defs)

theorem purchase_twice_witness:
  "eventType sample_purchased = ''NFTPurchased'' \<and>
   transactions sold_twice = transactions sold_once \<and>
   map (\<lambda>r. r\<lparr>n_updated_at := 0\<rparr>) (nfts sold_twice) =
     map (\<lambda>r. r\<lparr>n_updated_at := 0\<rparr>) (nfts sold_once) \<and>
   map (\<lambda>r. r\<lparr>l_updated_at := 0\<rparr>) (listings sold_twice) =
     map (\<lambda>r. r\<lparr>l_updated_at := 0\<rparr>) (listings sold_once) \<and>
   map n_owner (nfts sold_twice) = [''0xB''] \<and> map l_status (listings sold_twice) = [''sold'']"
proof -
  have k: "eventType sample_purchased = ''NFTPurchased''" by simp
  note twice = purchase_twice [OF k, of FetchRaises 5030 FetchRaises 30 listed_store,
      folded sold_once_def, folded sold_twice_def]
  from twice have tx: "transactions sold_twice = transactions sold_once" by blast
  from twice have n: "map (\<lambda>r. r\<lparr>n_updated_at := 0\<rparr>) (nfts sold_twice) =
      map (\<lambda>r. r\<lparr>n_updated_at := 0\<rparr>) (nfts sold_once)" by blast
  from twice have l: "map (\<lambda>r. r\<lparr>l_updated_at := 0\<rparr>) (listings sold_twice) =
      map (\<lambda>r. r\<lparr>l_updated_at := 0\<rparr>) (listings sold_once)" by blast
  have "map n_owner (nfts sold_twice) = [''0xB'']" "map l_status (listings sold_twice) = [''sold'']"
    by (simp_all add: sold_stores)
  with k tx n l show ?thesis by blast
qed

text \<open>
  The claim as the specification words it fails on the \<^verbatim>\<open>updated_at\<close> columns: after
  the second application, one poll interval later, the store is not the store after the
  first.
\<close>

theorem second_purchase_moves_updated_at:
  "map n_updated_at (nfts sold_once) = [30] \<and> map n_updated_at (nfts sold_twice) = [5030] \<and>
   map l_updated_at (listings sold_once) = [30] \<and>
   map l_updated_at (listings sold_twice) = [5030] \<and>
   sold_twice \<noteq> sold_once"
proof -
  have "nfts sold_twice \<noteq> nfts sold_once" by (simp add: sold_stores)
  then have "sold_twice \<noteq> sold_once" by auto
  then show ?thesis by (simp add: sold_stores)
qed

subsection \<open>An event delivered again\<close>

lemma wf_event_completes:
  assumes "wf_event e" and "parent_present e s"
  shows "completes (dispatch e f now s)"
proof -
  consider (m) "eventType e = ''NFTMinted''" | (l) "eventType e = ''NFTListed''"
    | (p) "eventType e = ''NFTPurchased''" | (dl) "eventType e = ''NFTDelisted''"
    | (u) "eventType e \<notin> set known_kinds"
    by (auto simp: known_kinds_def)
  then show ?thesis
  proof cases
    case m
    with assms(1) show ?thesis
      by (auto simp: wf_event_def dispatch_kind handleNFTMinted_def saveNFT_def basic_info_def
          full_info_def outcome_of_def str_or_def split: fetch_result.splits option.splits)
  next
    case l
    with assms show ?thesis
      by (auto simp: wf_event_def parent_present_def dispatch_kind handleNFTListed_def
          saveListing_def outcome_of_def)
  next
    case p
    with assms(1) show ?thesis
      by (auto simp: wf_event_def dispatch_kind handleNFTPurchased_def updateListingStatus_def
          updateNFTOwner_def outcome_of_def)
  next
    case dl
    with assms(1) show ?thesis
      by (auto simp: wf_event_def dispatch_kind handleNFTDelisted_def updateListingStatus_def
          outcome_of_def)
  next
    case u
    then show ?thesis by (simp add: dispatch_kind)
  qed
qed

lemma count_one:
  "distinct (map key rows) \<Longrightarrow> d \<in> set (map key rows) \<Longrightarrow>
   length (filter (\<lambda>r. key r = d) rows) = 1"
proof (induction rows)
  case Nil
  then show ?case by simp
next
  case (Cons r rows)
  show ?case
  proof (cases "key r = d")
    case True
    with Cons.prems(1) have "filter (\<lambda>x. key x = d) rows = []"
      by (auto simp: filter_empty_conv image_iff)
    with True show ?thesis by simp
  next
    case False
    with Cons show ?thesis by simp
  qed
qed

lemma count_at_most_one:
  "distinct (map key rows) \<Longrightarrow> length (filter (\<lambda>r. key r = d) rows) \<le> 1"
proof (cases "d \<in> set (map key rows)")
  case True
  assume "distinct (map key rows)"
  from count_one [OF this True] show ?thesis by simp
next
  case False
  then have "filter (\<lambda>r. key r = d) rows = []" by (auto simp: filter_empty_conv)
  then show ?thesis by simp
qed

text \<open>
  Claim C7, as the code has it.  On a store whose digests are unique, delivering an
  event, then any other deliveries, then the same event again never leaves more than one
  row of \<^verbatim>\<open>transactions\<close> with its digest.  When the handler of the first delivery
  completes there is exactly one such row after the first delivery and exactly one after
  the second, and the second delivery leaves \<^verbatim>\<open>transactions\<close> unchanged:
  \<^verbatim>\<open>saveTransaction\<close> returns the store, it has no error to report.  When the handler
  raises, the \<^verbatim>\<open>catch\<close> of \<^verbatim>\<open>processEvent\<close> skips the insert and the delivery leaves
  \<^verbatim>\<open>transactions\<close> as it was.  The handler completes for every event that carries the
  fields of its kind, provided that a Listed event finds the row of its entity when foreign
  keys are enforced.
\<close>

theorem redelivery_one_transaction:
  assumes uniq: "tx_unique s"
  shows "tx_count (txDigest event)
           (processEvent event f2 t2 (process_all between (processEvent event f1 t1 s))) \<le> 1 \<and>
         (completes (dispatch event f1 t1 s) \<longrightarrow>
            tx_count (txDigest event) (processEvent event f1 t1 s) = 1 \<and>
            tx_count (txDigest event)
              (processEvent event f2 t2 (process_all between (processEvent event f1 t1 s))) = 1 \<and>
            transactions (processEvent event f2 t2 (process_all between (processEvent event f1 t1 s))) =
              transactions (process_all between (processEvent event f1 t1 s))) \<and>
         (\<not> completes (dispatch event f1 t1 s) \<longrightarrow>
            transactions (processEvent event f1 t1 s) = transactions s) \<and>
         (wf_event event \<and> parent_present event s \<longrightarrow> completes (dispatch event f1 t1 s))"
proof -
  define s1 where "s1 = processEvent event f1 t1 s"
  define s2 where "s2 = process_all between s1"
  define s3 where "s3 = processEvent event f2 t2 s2"
  have u1: "tx_unique s1"
    using tx_unique_step [OF uniq, of "(event, f1, t1)"] by (simp add: s1_def process_delivery_def)
  have u2: "tx_unique s2" unfolding s2_def by (rule tx_unique_run [OF u1])
  have u3: "tx_unique s3"
    using tx_unique_step [OF u2, of "(event, f2, t2)"] by (simp add: s3_def process_delivery_def)
  have most: "tx_count (txDigest event) s3 \<le> 1"
    using count_at_most_one [of t_tx_digest "transactions s3" "txDigest event"] u3
    by (simp add: tx_count_def tx_unique_def)
  have exact: "tx_count (txDigest event) s1 = 1 \<and> tx_count (txDigest event) s3 = 1 \<and>
      transactions s3 = transactions s2"
    if ok: "completes (dispatch event f1 t1 s)"
  proof -
    have in1: "txDigest event \<in> set (map t_tx_digest (transactions s1))"
      using ok saveTransaction_has_digest [of "tx_of_event event" t1 s]
      by (simp add: s1_def transactions_processEvent)
    have in2: "txDigest event \<in> set (map t_tx_digest (transactions s2))"
      unfolding s2_def by (rule digests_kept_run [OF in1])
    have same: "transactions s3 = transactions s2"
      using in2 by (simp add: s3_def transactions_processEvent saveTransaction_again)
    have c1: "tx_count (txDigest event) s1 = 1"
      using count_one [of t_tx_digest "transactions s1" "txDigest event"] u1 in1
      by (simp add: tx_count_def tx_unique_def)
    have c2: "tx_count (txDigest event) s2 = 1"
      using count_one [of t_tx_digest "transactions s2" "txDigest event"] u2 in2
      by (simp add: tx_count_def tx_unique_def)
    show ?thesis using c1 c2 same by (simp add: tx_count_def)
  qed
  have skipped: "transactions s1 = transactions s" if "\<not> completes (dispatch event f1 t1 s)"
    using that by (simp add: s1_def transactions_processEvent)
  have wf: "completes (dispatch event f1 t1 s)" if "wf_event event" "parent_present event s"
    using that by (rule wf_event_completes)
  show ?thesis
    using most exact skipped wf by (simp add: s1_def s2_def s3_def)
qed

lemma sample_mint_completes:
  "wf_event sample_minted" "parent_present sample_minted (empty_db True)"
  "completes (dispatch sample_minted FetchRaises 10 (empty_db True))"
  by (simp_all add: wf_event_def parent_present_def run_defs)

lemma sample_listing_raises:
  "\<not> completes (dispatch sample_listed FetchRaises 20 (empty_db True))"
  by (simp add: run_defs)

theorem redelivery_one_transaction_witness:
  "tx_unique (empty_db True) \<and>
   wf_event sample_minted \<and> parent_present sample_minted (empty_db True) \<and>
   completes (dispatch sample_minted FetchRaises 10 (empty_db True)) \<and>
   tx_count ''digest1'' (processEvent sample_minted FetchRaises 10 (empty_db True)) = 1 \<and>
   tx_count ''digest1''
     (processEvent sample_minted FetchRaises 5010
        (process_all [(sample_listed, FetchRaises, 20)]
           (processEvent sample_minted FetchRaises 10 (empty_db True)))) = 1 \<and>
   \<not> completes (dispatch sample_listed FetchRaises 20 (empty_db True)) \<and>
   transactions (processEvent sample_listed FetchRaises 20 (empty_db True)) = []"
proof -
  have u: "tx_unique (empty_db True)" by (simp add: tx_unique_def)
  note minted = redelivery_one_transaction [OF u, of sample_minted FetchRaises 5010
      "[(sample_listed, FetchRaises, 20)]" FetchRaises 10]
  note listed = redelivery_one_transaction [OF u, of sample_listed FetchRaises 5020 "[]"
      FetchRaises 20]
  from minted sample_mint_completes
  have one: "tx_count ''digest1'' (processEvent sample_minted FetchRaises 10 (empty_db True)) = 1 \<and>
      tx_count ''digest1''
        (processEvent sample_minted FetchRaises 5010
           (process_all [(sample_listed, FetchRaises, 20)]
              (processEvent sample_minted FetchRaises 10 (empty_db True)))) = 1"
    by simp
  from listed sample_listing_raises
  have none: "transactions (processEvent sample_listed FetchRaises 20 (empty_db True)) = []"
    by simp
  from u sample_mint_completes one sample_listing_raises none show ?thesis by blast
qed

text \<open>
  The claim as the specification words it fails for a Listed event whose entity has no
  row while foreign keys are enforced: \<^verbatim>\<open>saveListing\<close> raises at both deliveries, and
  \<^verbatim>\<open>transactions\<close> has no row with the digest of the event.
\<close>

theorem listed_twice_without_entity:
  "wf_event sample_listed \<and> tx_unique (empty_db True) \<and>
   tx_count ''digest2'' (processEvent sample_listed FetchRaises 20 (empty_db True)) = 0 \<and>
   tx_count ''digest2''
     (processEvent sample_listed FetchRaises 5020
        (processEvent sample_listed FetchRaises 20 (empty_db True))) = 0"
  by (simp add: wf_event_def tx_unique_def tx_count_def run_defs)

subsection \<open>Start-up\<close>

lemma env_or_update_other [simp]:
  "k \<noteq> k' \<Longrightarrow> env_or (e(k' := v)) k d = env_or e k d"
  by (simp add: env_or_def)

lemma SuiService_fails:
  "isl (SuiService_constructor h cfg) =
     (getFullnodeUrl h (if SUI_NETWORK cfg = [] then ''testnet'' else SUI_NETWORK cfg) = None \<or>
      SUI_PRIVATE_KEY cfg = [] \<or>
      Option.bind (fromBase64 h (privateKeyBase64 (SUI_PRIVATE_KEY cfg)))
        (\<lambda>bs. fromSecretKey h (take 32 (drop 1 bs))) = None)"
  by (auto simp: SuiService_constructor_def Let_def split: option.splits)

lemma env_or_nonempty: "d \<noteq> [] \<Longrightarrow> env_or e k d \<noteq> []"
  by (auto simp: env_or_def or_null_def split: option.splits if_splits)

lemma startup_fails:
  "isl (startup h e) =
     (getFullnodeUrl h (env_or e ''SUI_NETWORK'' ''testnet'') = None \<or>
      env_or e ''SUI_PRIVATE_KEY'' [] = [] \<or>
      Option.bind (fromBase64 h (privateKeyBase64 (env_or e ''SUI_PRIVATE_KEY'' [])))
        (\<lambda>bs. fromSecretKey h (take 32 (drop 1 bs))) = None \<or>
      \<not> open_database h (env_or e ''DB_PATH'' ''./marketplace.db'') \<or>
      \<not> listen h (env_or e ''PORT'' ''3000''))"
proof -
  have "isl (startup h e) =
      (isl (SuiService_constructor h (load_config e)) \<or> \<not> open_database h (DB_PATH e) \<or>
       \<not> listen h (PORT e))"
    by (simp add: startup_def DatabaseService_constructor_def split: sum.splits)
  then show ?thesis
    using env_or_nonempty [of "''testnet''" e "''SUI_NETWORK''"]
    by (simp add: SuiService_fails load_config_def DB_PATH_def PORT_def)
qed

lemma startup_runs:
  "(case startup h e of
      Inl err \<Rightarrow> True
    | Inr r \<Rightarrow> isRunning (fst (snd r)) \<and> snd (snd r) \<and>
        sui_packageId (fst r) = env_or e ''PACKAGE_ID'' [] \<and>
        sui_marketplaceId (fst r) = env_or e ''MARKETPLACE_ID'' [])"
  by (auto simp: startup_def SuiService_constructor_def Let_def start_def
      IndexerService_constructor_def load_config_def split: sum.splits option.splits if_splits)

lemma sample_startup:
  "startup sample_host sample_env =
     Inr (\<lparr>client_url = ''https://fullnode.testnet.sui.io:443'', keypair = replicate 32 0,
           sui_packageId = [], sui_marketplaceId = []\<rparr>,
          \<lparr>isRunning = True, pollInterval = Finite 5000, packageId = None\<rparr>, True)"
  by (simp add: startup_def SuiService_constructor_def load_config_def env_or_def or_null_def
      sample_env_def sample_host_def privateKeyBase64_def IndexerService_constructor_def
      DatabaseService_constructor_def DB_PATH_def PORT_def start_def parse_samples)

text \<open>
  Claim C4, as the code has it.  Start-up fails, and \<^verbatim>\<open>indexer.start()\<close> never runs,
  exactly when \<^verbatim>\<open>SUI_PRIVATE_KEY\<close> is missing or empty, the SDK rejects the network name
  or the key, the database file at \<^verbatim>\<open>DB_PATH\<close> (by default \<^verbatim>\<open>./marketplace.db\<close>) cannot
  be opened, or the server cannot listen on \<^verbatim>\<open>PORT\<close> (by default 3000).  In particular
  it fails whenever the key is missing or empty.  Whether it fails does not depend on
  \<^verbatim>\<open>PACKAGE_ID\<close> and \<^verbatim>\<open>MARKETPLACE_ID\<close>, which default to the empty text; a missing
  \<^verbatim>\<open>SUI_NETWORK\<close> is the test network.  When start-up does not fail, the callback of
  \<^verbatim>\<open>app.listen\<close> has launched the poll loop.
\<close>

theorem startup_fails_on_key_only:
  "isl (startup h e) =
     (getFullnodeUrl h (env_or e ''SUI_NETWORK'' ''testnet'') = None \<or>
      env_or e ''SUI_PRIVATE_KEY'' [] = [] \<or>
      Option.bind (fromBase64 h (privateKeyBase64 (env_or e ''SUI_PRIVATE_KEY'' [])))
        (\<lambda>bs. fromSecretKey h (take 32 (drop 1 bs))) = None \<or>
      \<not> open_database h (env_or e ''DB_PATH'' ''./marketplace.db'') \<or>
      \<not> listen h (env_or e ''PORT'' ''3000'')) \<and>
   isl (startup h (e(''SUI_PRIVATE_KEY'' := None))) \<and>
   isl (startup h (e(''SUI_PRIVATE_KEY'' := Some []))) \<and>
   isl (startup h (e(''PACKAGE_ID'' := pk, ''MARKETPLACE_ID'' := mk))) = isl (startup h e) \<and>
   startup h (e(''SUI_NETWORK'' := None)) = startup h (e(''SUI_NETWORK'' := Some ''testnet'')) \<and>
   (case startup h e of
      Inl err \<Rightarrow> True
    | Inr r \<Rightarrow> isRunning (fst (snd r)) \<and> snd (snd r) \<and>
        sui_packageId (fst r) = env_or e ''PACKAGE_ID'' [] \<and>
        sui_marketplaceId (fst r) = env_or e ''MARKETPLACE_ID'' [])"
proof -
  have none: "isl (startup h (e(''SUI_PRIVATE_KEY'' := None)))"
    by (simp add: startup_fails) (simp add: env_or_def or_null_def)
  have empty: "isl (startup h (e(''SUI_PRIVATE_KEY'' := Some [])))"
    by (simp add: startup_fails) (simp add: env_or_def or_null_def)
  have ids: "isl (startup h (e(''PACKAGE_ID'' := pk, ''MARKETPLACE_ID'' := mk))) =
      isl (startup h e)"
    by (simp add: startup_fails)
  have net: "startup h (e(''SUI_NETWORK'' := None)) =
      startup h (e(''SUI_NETWORK'' := Some ''testnet''))"
  proof -
    have cfg: "load_config (e(''SUI_NETWORK'' := None)) =
        load_config (e(''SUI_NETWORK'' := Some ''testnet''))"
      by (simp add: load_config_def) (simp add: env_or_def or_null_def)
    have ix: "IndexerService_constructor (e(''SUI_NETWORK'' := v)) = IndexerService_constructor e"
      for v by (simp add: IndexerService_constructor_def)
    have dbc: "DatabaseService_constructor h (e(''SUI_NETWORK'' := v)) =
        DatabaseService_constructor h e" for v
      by (simp add: DatabaseService_constructor_def DB_PATH_def)
    have port: "PORT (e(''SUI_NETWORK'' := v)) = PORT e" for v
      by (simp add: PORT_def)
    show ?thesis unfolding startup_def cfg ix dbc port ..
  qed
  show ?thesis
    using startup_fails [where h = h and e = e] none empty ids net
      startup_runs [where h = h and e = e] by blast
qed

theorem startup_fails_on_key_only_witness:
  "isl (startup sample_host (sample_env(''SUI_PRIVATE_KEY'' := None))) \<and>
   isl (startup sample_host (sample_env(''PACKAGE_ID'' := None, ''MARKETPLACE_ID'' := None))) =
     isl (startup sample_host sample_env) \<and>
   open_database sample_host (env_or sample_env ''DB_PATH'' ''./marketplace.db'') \<and>
   listen sample_host (env_or sample_env ''PORT'' ''3000'') \<and>
   \<not> isl (startup sample_host sample_env)"
proof -
  have "\<not> isl (startup sample_host sample_env)" by (simp add: sample_startup)
  with startup_fails_on_key_only
    [where h = sample_host and e = sample_env and pk = None and mk = None]
  show ?thesis by blast
qed

text \<open>
  The claim as the specification words it fails: with no package identifier, no
  marketplace identifier and no network name in the environment, start-up succeeds and
  launches the loop.
\<close>

theorem startup_without_identifiers:
  "sample_env ''PACKAGE_ID'' = None \<and> sample_env ''MARKETPLACE_ID'' = None \<and>
   sample_env ''SUI_NETWORK'' = None \<and>
   startup sample_host sample_env =
     Inr (\<lparr>client_url = ''https://fullnode.testnet.sui.io:443'', keypair = replicate 32 0,
           sui_packageId = [], sui_marketplaceId = []\<rparr>,
          \<lparr>isRunning = True, pollInterval = Finite 5000, packageId = None\<rparr>, True)"
  by (simp add: sample_startup) (simp add: sample_env_def)

subsection \<open>The poll loop\<close>









subsection \<open>The listings query\<close>

lemma join_row_nft_id [simp]: "l_nft_id (join_row l n) = l_nft_id l"
  by (simp add: join_row_def listing_row.defs listing_view.defs)

lemma join_has_parent:
  assumes "v \<in> set (listings_join_nfts s)"
  shows "l_nft_id v \<in> set (map n_id (nfts s))"
proof -
  from assms obtain l n where "v = join_row l n" "n \<in> set (nfts s)" "l_nft_id l = n_id n"
    by (auto simp: listings_join_nfts_def)
  then show ?thesis by auto
qed

lemma join_keyed: "v \<in> set (listings_join_nfts s) \<Longrightarrow> \<exists>i. l_nft_id v = Some i"
  by (auto simp: listings_join_nfts_def) metis

lemma set_insert_desc: "set (insert_desc v ws) = insert v (set ws)"
  by (induction ws) auto

lemma set_order_by_listed_at_desc: "set (order_by_listed_at_desc vs) = set vs"
  by (induction vs) (simp_all add: order_by_listed_at_desc_def set_insert_desc)

lemma getListings_from_join:
  "set (getListings status s) \<subseteq> set (listings_join_nfts s)"
  by (auto simp: getListings_def set_order_by_listed_at_desc split: option.splits)

lemma getListings_omits_keyless:
  "None \<notin> set (map l_nft_id (getListings status s))"
proof
  assume "None \<in> set (map l_nft_id (getListings status s))"
  then obtain v where "v \<in> set (getListings status s)" and "l_nft_id v = None"
    by (auto simp: image_iff)
  with getListings_from_join [of status s] join_keyed [of v s] show False by auto
qed

lemma listed_before_mint_tables:
  "listings listed_before_mint = [sample_listing_row]"
  "nfts listed_before_mint = []"
  by (simp_all add: listed_before_mint_def sample_listing_row_def run_defs)

text \<open>
  Claim C10.  With any status filter and with none, \<^verbatim>\<open>getListings\<close> returns no row
  for a listing whose \<^verbatim>\<open>nft_id\<close> is the \<^verbatim>\<open>id\<close> of no row of \<^verbatim>\<open>nfts\<close>, although
  the listing is in the \<^verbatim>\<open>listings\<close> table.
\<close>

theorem getListings_omits_unmatched:
  assumes "l \<in> set (listings s)" and "l_nft_id l \<notin> set (map n_id (nfts s))"
  shows "l_nft_id l \<notin> set (map l_nft_id (getListings status s))"
proof
  assume "l_nft_id l \<in> set (map l_nft_id (getListings status s))"
  then obtain v where "v \<in> set (getListings status s)" "l_nft_id v = l_nft_id l" by auto
  with getListings_from_join [of status s] join_has_parent [of v s] assms(2)
  show False by auto
qed

theorem getListings_omits_unmatched_witness:
  "sample_listing_row \<in> set (listings listed_before_mint) \<and>
   l_nft_id sample_listing_row \<notin> set (map n_id (nfts listed_before_mint)) \<and>
   l_nft_id sample_listing_row
     \<notin> set (map l_nft_id (getListings (Some ''active'') listed_before_mint))"
proof -
  have row: "sample_listing_row \<in> set (listings listed_before_mint)"
    by (simp add: listed_before_mint_tables)
  have orphan: "l_nft_id sample_listing_row \<notin> set (map n_id (nfts listed_before_mint))"
    by (simp add: listed_before_mint_tables)
  from row orphan getListings_omits_unmatched [OF row orphan, of "Some ''active''"]
  show ?thesis by blast
qed

end
